theory Spec2Isabelle
  imports Main "HOL-Library.AList" "HOL-Library.Multiset"
begin

section \<open>Tokens and configuration\<close>

text \<open>
  Instants are milliseconds since the epoch, as \<open>Date.now()\<close> and \<open>Date.getTime()\<close>
  give them. Every \<open>new Date()\<close> of the source is a reading of the clock; a function of
  the model takes each reading it makes as an argument, so that nothing is assumed about
  how the readings of one call relate to each other.
\<close>

type_synonym time = int

text \<open>
  \<open>JwtPayload\<close> of \<open>auth.service.ts\<close>. The field \<open>sessionId\<close> is optional in the model:
  \<open>refreshToken\<close> tests \<open>payload.sessionId\<close> for truthiness, for tokens issued before session
  ids were embedded. Field names that several interfaces share carry a prefix.
\<close>

record JwtPayload =
  sub :: string
  p_phoneNumber :: string
  p_email :: "string option"
  p_role :: string
  sessionId :: "string option"

text \<open>
  A token string. \<open>Jwt\<close> is a well-formed signed token: the secret it was signed with,
  its payload, and the \<open>iat\<close> and \<open>exp\<close> claims in seconds. \<open>Opaque\<close> is any other string;
  \<open>Opaque ''''\<close> is the empty string.
\<close>

datatype jwt =
  Jwt (jwt_secret: string) (jwt_payload: JwtPayload) (jwt_iat: int) (jwt_exp: int)
| Opaque string

text \<open>
  Modelled from the spec: the token codec (\<open>JwtService.signAsync\<close> and \<open>JwtService.verify\<close>
  of the library \<open>@nestjs/jwt\<close>, which is not part of the repository). Signing is
  deterministic in the payload, the secret, the lifetime and the second of issue;
  verification fails on a wrong signature, a malformed token, or an \<open>exp\<close> that has passed,
  and consults no other state.
\<close>

definition jwt_sign :: "string \<Rightarrow> int \<Rightarrow> time \<Rightarrow> JwtPayload \<Rightarrow> jwt" where
  "jwt_sign secret ttl now p = Jwt secret p (now div 1000) (now div 1000 + ttl)"

definition jwt_verify :: "string \<Rightarrow> time \<Rightarrow> jwt \<Rightarrow> JwtPayload option" where
  "jwt_verify secret now t =
     (case t of
        Jwt s p iat ex \<Rightarrow> if s = secret \<and> now div 1000 < ex then Some p else None
      | Opaque _ \<Rightarrow> None)"

text \<open>
  The configuration the code reads through \<open>ConfigService\<close>. \<open>access_ttl\<close> and
  \<open>refresh_ttl\<close> are the lifetimes in seconds that the signing library derives from its
  \<open>expiresIn\<close> option; \<open>JWT_REFRESH_EXPIRATION\<close> is the raw setting, which
  \<open>parseTokenExpiration\<close> reads on its own.
\<close>

record config =
  JWT_SECRET :: string
  JWT_REFRESH_SECRET :: string
  JWT_REFRESH_EXPIRATION :: "string option"
  access_ttl :: int
  refresh_ttl :: int

section \<open>The presence registry of \<open>NotificationsGateway\<close>\<close>

text \<open>
  \<open>userSockets : Map<string, Set<string>>\<close> and \<open>socketToUser : Map<string, string>\<close>.
  A JavaScript \<open>Map\<close> keeps its keys in insertion order and \<open>set\<close> on a present key
  replaces the value in place, which is \<open>AList.update\<close>; a \<open>Set\<close> is the list of
  its members in insertion order.
\<close>

record registry =
  userSockets :: "(string \<times> string list) list"
  socketToUser :: "(string \<times> string) list"

definition empty_registry :: registry where
  "empty_registry = \<lparr>userSockets = [], socketToUser = []\<rparr>"

definition set_add :: "'a \<Rightarrow> 'a list \<Rightarrow> 'a list" where
  "set_add c S = (if c \<in> set S then S else S @ [c])"

definition set_delete :: "'a \<Rightarrow> 'a list \<Rightarrow> 'a list" where
  "set_delete c S = removeAll c S"

text \<open>
  The handshake of a connecting socket: the three places \<open>handleConnection\<close> looks for a
  token, the authorization header already stripped of its \<open>Bearer\<close> prefix.
\<close>

record handshake =
  hs_auth_token :: "jwt option"
  hs_authorization :: "jwt option"
  hs_query_token :: "jwt option"

definition truthy_token :: "jwt option \<Rightarrow> bool" where
  "truthy_token t = (t \<noteq> None \<and> t \<noteq> Some (Opaque []))"

definition extract_token :: "handshake \<Rightarrow> jwt option" where
  "extract_token hs =
     (if truthy_token (hs_auth_token hs) then hs_auth_token hs
      else if truthy_token (hs_authorization hs) then hs_authorization hs
      else if truthy_token (hs_query_token hs) then hs_query_token hs
      else None)"

datatype connection_outcome =
  ErrorDisconnect string
| Connected string string nat "string list"

text \<open>Lines 100 to 105 of \<open>handleConnection\<close>: the two maps are updated.\<close>

definition track_socket :: "string \<Rightarrow> string \<Rightarrow> registry \<Rightarrow> registry" where
  "track_socket userId clientId r =
     (let us1 = (if map_of (userSockets r) userId = None
                 then AList.update userId [] (userSockets r) else userSockets r);
          us2 = AList.map_entry userId (set_add clientId) us1
      in r\<lparr>userSockets := us2, socketToUser := AList.update clientId userId (socketToUser r)\<rparr>)"

definition getUserConnectionCount :: "registry \<Rightarrow> string \<Rightarrow> nat" where
  "getUserConnectionCount r userId =
     (case map_of (userSockets r) userId of None \<Rightarrow> 0 | Some S \<Rightarrow> length S)"

definition isUserConnected :: "registry \<Rightarrow> string \<Rightarrow> bool" where
  "isUserConnected r userId =
     (case map_of (userSockets r) userId of None \<Rightarrow> False | Some S \<Rightarrow> 0 < length S)"

definition getConnectedUserIds :: "registry \<Rightarrow> string list" where
  "getConnectedUserIds r = map fst (userSockets r)"

definition handleConnection ::
  "config \<Rightarrow> time \<Rightarrow> string \<Rightarrow> handshake \<Rightarrow> registry \<Rightarrow> registry \<times> connection_outcome" where
  "handleConnection cfg now clientId hs r =
     (case extract_token hs of
        None \<Rightarrow> (r, ErrorDisconnect ''Authentication required'')
      | Some token \<Rightarrow>
          (case jwt_verify (JWT_SECRET cfg) now token of
             None \<Rightarrow> (r, ErrorDisconnect ''Invalid or expired token'')
           | Some payload \<Rightarrow>
               (let userId = sub payload; role = p_role payload in
                if userId = [] then (r, ErrorDisconnect ''Invalid token payload'')
                else
                  (let r' = track_socket userId clientId r;
                       rooms = (''user:'' @ userId) #
                               (if role \<noteq> [] then [''role:'' @ role] else [])
                   in (r', Connected userId clientId (getUserConnectionCount r' userId) rooms)))))"

definition handleDisconnect :: "string \<Rightarrow> registry \<Rightarrow> registry" where
  "handleDisconnect clientId r =
     (case map_of (socketToUser r) clientId of
        None \<Rightarrow> r
      | Some userId \<Rightarrow>
          if userId = [] then r
          else
            (let us =
               (case map_of (userSockets r) userId of
                  None \<Rightarrow> userSockets r
                | Some S \<Rightarrow>
                    (let S' = set_delete clientId S in
                     if length S' = 0 then AList.delete userId (userSockets r)
                     else AList.map_entry userId (\<lambda>_. S') (userSockets r)))
             in r\<lparr>userSockets := us, socketToUser := AList.delete clientId (socketToUser r)\<rparr>))"

text \<open>
  The events the socket server delivers to the gateway, and the registry after a sequence
  of them.
\<close>

datatype gateway_event =
  Connect time string handshake
| Disconnect string

fun gateway_step :: "config \<Rightarrow> gateway_event \<Rightarrow> registry \<Rightarrow> registry" where
  "gateway_step cfg (Connect now clientId hs) r = fst (handleConnection cfg now clientId hs r)"
| "gateway_step cfg (Disconnect clientId) r = handleDisconnect clientId r"

fun gateway_run :: "config \<Rightarrow> gateway_event list \<Rightarrow> registry \<Rightarrow> registry" where
  "gateway_run cfg [] r = r"
| "gateway_run cfg (e # es) r = gateway_run cfg es (gateway_step cfg e r)"

text \<open>
  The identity a connection attempt authenticates as, if it does: the \<open>sub\<close> of the verified
  payload when it is not empty.
\<close>

definition connecting_user :: "config \<Rightarrow> time \<Rightarrow> handshake \<Rightarrow> string option" where
  "connecting_user cfg now hs =
     (case extract_token hs of
        None \<Rightarrow> None
      | Some token \<Rightarrow>
          (case jwt_verify (JWT_SECRET cfg) now token of
             None \<Rightarrow> None
           | Some payload \<Rightarrow> if sub payload = [] then None else Some (sub payload)))"

text \<open>
  Mutual consistency of the two maps: every socket id in an identity's set is mapped back
  to that identity, every reverse entry's socket id lies in the set of the identity it
  names, and each map holds a key once.
\<close>

definition registry_consistent :: "registry \<Rightarrow> bool" where
  "registry_consistent r =
     (distinct (map fst (userSockets r)) \<and> distinct (map fst (socketToUser r)) \<and>
      (\<forall>(u, S) \<in> set (userSockets r). \<forall>c \<in> set S. map_of (socketToUser r) c = Some u) \<and>
      (\<forall>(c, u) \<in> set (socketToUser r).
          case map_of (userSockets r) u of None \<Rightarrow> False | Some S \<Rightarrow> c \<in> set S))"

text \<open>
  A sequence of events in which no socket id connects while it is still registered to a
  different identity. Every sequence in which each connecting id is new is one.
\<close>

fun no_id_reuse :: "config \<Rightarrow> gateway_event list \<Rightarrow> registry \<Rightarrow> bool" where
  "no_id_reuse cfg [] r = True"
| "no_id_reuse cfg (e # es) r =
     ((case e of
         Connect now clientId hs \<Rightarrow>
           (case connecting_user cfg now hs of
              None \<Rightarrow> True
            | Some u \<Rightarrow>
                (case map_of (socketToUser r) clientId of None \<Rightarrow> True | Some u' \<Rightarrow> u' = u))
       | Disconnect _ \<Rightarrow> True)
      \<and> no_id_reuse cfg es (gateway_step cfg e r))"


section \<open>Sessions, users and the user collection\<close>

text \<open>\<open>UserSession\<close> of \<open>user.schema.ts\<close>; dates are instants.\<close>

record UserSession =
  s_id :: string
  s_refreshToken :: jwt
  s_device :: string
  s_ipAddress :: string
  s_userAgent :: string
  s_location :: "string option"
  s_isActive :: bool
  s_lastActive :: time
  s_createdAt :: time
  s_expiresAt :: time

text \<open>The fields of a \<open>User\<close> document that the session code reads or writes.\<close>

record User =
  u_id :: string
  u_phoneNumber :: string
  u_email :: "string option"
  u_role :: string
  u_isActive :: bool
  sessions :: "UserSession list"

text \<open>
  The collection behind \<open>userModel\<close>, keyed by \<open>_id\<close>. A document found under a key
  carries that key as its \<open>_id\<close>; \<open>save\<close> writes a document back under its \<open>_id\<close>.
\<close>

type_synonym user_store = "string \<Rightarrow> User option"

definition findById :: "user_store \<Rightarrow> string \<Rightarrow> User option" where
  "findById st k = map_option (\<lambda>u. u\<lparr>u_id := k\<rparr>) (st k)"

definition save :: "User \<Rightarrow> user_store \<Rightarrow> user_store" where
  "save user st = st(u_id user \<mapsto> user)"

datatype http_error =
  UnauthorizedException string
| NotFoundException string
| JsonWebTokenError

definition is_unauthorized :: "http_error + 'a \<Rightarrow> bool" where
  "is_unauthorized res = (case res of Inl (UnauthorizedException _) \<Rightarrow> True | _ \<Rightarrow> False)"

text \<open>JavaScript truthiness of an optional string: present and not empty.\<close>

definition truthy :: "string option \<Rightarrow> bool" where
  "truthy s = (s \<noteq> None \<and> s \<noteq> Some [])"

text \<open>\<open>Array.prototype.findIndex\<close>, with \<open>None\<close> for \<open>-1\<close>.\<close>

fun findIndex :: "('a \<Rightarrow> bool) \<Rightarrow> 'a list \<Rightarrow> nat option" where
  "findIndex P [] = None"
| "findIndex P (x # xs) = (if P x then Some 0 else map_option Suc (findIndex P xs))"

text \<open>
  The device context of a request, as \<open>getClientIp\<close>, the \<open>user-agent\<close> header,
  \<open>parseDeviceInfo\<close> and \<open>getLocationFromIp\<close> derive it; nothing proved below depends on
  how these strings are computed. A call without a request is \<open>None\<close>.
\<close>

record request =
  req_clientIp :: string
  req_userAgent :: "string option"
  req_device :: string
  req_location :: string

definition getClientIp :: "request option \<Rightarrow> string" where
  "getClientIp req = (case req of None \<Rightarrow> ''Unknown'' | Some rq \<Rightarrow> req_clientIp rq)"

definition userAgentOf :: "request option \<Rightarrow> string" where
  "userAgentOf req =
     (case req of
        None \<Rightarrow> ''Unknown''
      | Some rq \<Rightarrow>
          (case req_userAgent rq of
             None \<Rightarrow> ''Unknown''
           | Some ua \<Rightarrow> if ua = [] then ''Unknown'' else ua))"

definition deviceOf :: "request option \<Rightarrow> string" where
  "deviceOf req =
     (case req of None \<Rightarrow> ''Unknown Browser on Unknown OS'' | Some rq \<Rightarrow> req_device rq)"

definition locationOf :: "request option \<Rightarrow> string" where
  "locationOf req = (case req of None \<Rightarrow> ''Local Network'' | Some rq \<Rightarrow> req_location rq)"

subsection \<open>\<open>parseTokenExpiration\<close>\<close>

definition is_digit :: "char \<Rightarrow> bool" where
  "is_digit c = (48 \<le> (of_char c :: nat) \<and> (of_char c :: nat) \<le> 57)"

text \<open>
  A JavaScript number that the expiry computation can produce. \<open>Num n\<close> is the double that
  is exactly the integer \<open>n\<close>, which every integer up to \<open>2^53\<close> in magnitude is.
  \<open>Huge\<close> is a double of at least \<open>2^53\<close>, \<open>Infinity\<close> included, whose value the model
  leaves open: it is what an operation on non-negative integers gives when its exact
  result exceeds \<open>2^53\<close>, because rounding is monotone and \<open>2^53\<close> is a double.
\<close>

datatype js_number = Num int | Huge

definition max_exact :: int where
  "max_exact = 9007199254740992"

definition js_exact :: "int \<Rightarrow> js_number" where
  "js_exact n = (if n \<le> max_exact then Num n else Huge)"

text \<open>The product of a non-negative number and a positive integer constant.\<close>

definition js_times :: "js_number \<Rightarrow> int \<Rightarrow> js_number" where
  "js_times x k = (case x of Huge \<Rightarrow> Huge | Num n \<Rightarrow> js_exact (n * k))"

text \<open>\<open>parseInt(value, 10)\<close> on a string of decimal digits.\<close>

definition parseInt10 :: "string \<Rightarrow> js_number" where
  "parseInt10 ds = js_exact (foldl (\<lambda>acc c. acc * 10 + (int (of_char c) - 48)) 0 ds)"

text \<open>
  The regular expression \<open>^(\d+)([smhd])$\<close>: one or more digits, then one unit letter.
  The products are taken from the left, as the source writes them.
\<close>

definition parseTokenExpiration :: "string \<Rightarrow> js_number" where
  "parseTokenExpiration expiration =
     (if length expiration < 2 \<or> \<not> list_all is_digit (butlast expiration)
         \<or> last expiration \<notin> set ''smhd''
      then Num (7 * 24 * 60 * 60 * 1000)
      else
        (let num = parseInt10 (butlast expiration); unit = last expiration in
         if unit = CHR ''s'' then js_times num 1000
         else if unit = CHR ''m'' then js_times (js_times num 60) 1000
         else if unit = CHR ''h'' then js_times (js_times (js_times num 60) 60) 1000
         else if unit = CHR ''d'' then
           js_times (js_times (js_times (js_times num 24) 60) 60) 1000
         else Num (7 * 24 * 60 * 60 * 1000)))"

definition refreshExpirationMs :: "config \<Rightarrow> js_number" where
  "refreshExpirationMs cfg =
     parseTokenExpiration (case JWT_REFRESH_EXPIRATION cfg of None \<Rightarrow> ''7d'' | Some e \<Rightarrow> e)"

text \<open>
  \<open>new Date(now + ms)\<close> for a clock reading \<open>now\<close>: an instant when the sum is at most
  \<open>8.64e15\<close> in magnitude, and otherwise an Invalid Date, which is \<open>None\<close>. The bound lies
  below \<open>2^53\<close>, so the exact sum decides it. For \<open>Huge\<close> the sum is beyond the bound for
  every clock reading that is not some eleven thousand years before the epoch.
\<close>

definition max_date :: int where
  "max_date = 8640000000000000"

definition new_Date_after :: "time \<Rightarrow> js_number \<Rightarrow> time option" where
  "new_Date_after now ms =
     (case ms of
        Huge \<Rightarrow> None
      | Num n \<Rightarrow> if \<bar>now + n\<bar> \<le> max_date then Some (now + n) else None)"

subsection \<open>\<open>AuthService.generateTokens\<close>\<close>

text \<open>The readings of the clock that one call of \<open>generateTokens\<close> makes, in source order.\<close>

record token_clock =
  at_sign_access :: time
  at_sign_refresh :: time
  at_expiry :: time
  at_lastActive :: time
  at_createdAt :: time
  at_cleanup :: time

text \<open>
  \<open>sort((a, b) => b.lastActive.getTime() - a.lastActive.getTime())\<close>: a stable sort,
  most recently active first.
\<close>

definition sort_by_lastActive_desc :: "UserSession list \<Rightarrow> UserSession list" where
  "sort_by_lastActive_desc xs = sort_key (\<lambda>s. - s_lastActive s) xs"

definition token_payload :: "User \<Rightarrow> string \<Rightarrow> JwtPayload" where
  "token_payload user sid =
     \<lparr>sub = u_id user, p_phoneNumber = u_phoneNumber user, p_email = u_email user,
      p_role = u_role user, sessionId = Some sid\<rparr>"

definition new_session ::
  "token_clock \<Rightarrow> request option \<Rightarrow> string \<Rightarrow> jwt \<Rightarrow> time \<Rightarrow> UserSession" where
  "new_session clk req sid refreshTok expiresAt =
     \<lparr>s_id = sid, s_refreshToken = refreshTok, s_device = deviceOf req,
      s_ipAddress = getClientIp req, s_userAgent = userAgentOf req,
      s_location = Some (locationOf req), s_isActive = True,
      s_lastActive = at_lastActive clk, s_createdAt = at_createdAt clk,
      s_expiresAt = expiresAt\<rparr>"

text \<open>
  The session list after \<open>user.sessions.push(newSession)\<close>. A stored \<open>expiresAt\<close> is an
  instant. When the new session's \<open>expiresAt\<close> is an Invalid Date, the clean-up that follows
  the push drops it, since \<open>session.expiresAt > now\<close> is false for it, and nothing reads the
  list in between; the model leaves that session out of the pushed list, which gives the
  same list after the clean-up.
\<close>

definition push_new_session ::
  "config \<Rightarrow> token_clock \<Rightarrow> request option \<Rightarrow> string \<Rightarrow> jwt \<Rightarrow> UserSession list
    \<Rightarrow> UserSession list" where
  "push_new_session cfg clk req sid refreshTok ss =
     (case new_Date_after (at_expiry clk) (refreshExpirationMs cfg) of
        None \<Rightarrow> ss
      | Some expiresAt \<Rightarrow> ss @ [new_session clk req sid refreshTok expiresAt])"

text \<open>
  \<open>uuid\<close> is the value \<open>crypto.randomUUID()\<close> returns. The result is the token pair, the
  in-memory document after the call, and the collection.
\<close>

definition generateTokens ::
  "config \<Rightarrow> string \<Rightarrow> token_clock \<Rightarrow> User \<Rightarrow> request option \<Rightarrow> string option \<Rightarrow> user_store
    \<Rightarrow> (jwt \<times> jwt) \<times> User \<times> user_store" where
  "generateTokens cfg uuid clk user req existingSessionId st =
     (let sessionId = (case existingSessionId of
                         None \<Rightarrow> uuid
                       | Some e \<Rightarrow> if e = [] then uuid else e);
          payload = token_payload user sessionId;
          accessToken = jwt_sign (JWT_SECRET cfg) (access_ttl cfg) (at_sign_access clk) payload;
          refreshToken =
            jwt_sign (JWT_REFRESH_SECRET cfg) (refresh_ttl cfg) (at_sign_refresh clk) payload
      in
        if \<not> truthy existingSessionId then
          (let pushed = push_new_session cfg clk req sessionId refreshToken (sessions user);
               live = filter (\<lambda>s. at_cleanup clk < s_expiresAt s) pushed;
               kept = (if 10 < length live then take 10 (sort_by_lastActive_desc live) else live);
               user' = user\<lparr>sessions := kept\<rparr>
           in ((accessToken, refreshToken), user', save user' st))
        else
          (case findIndex (\<lambda>s. s_id s = sessionId) (sessions user) of
             None \<Rightarrow> ((accessToken, refreshToken), user, st)
           | Some i \<Rightarrow>
               (let user' = user\<lparr>sessions := (sessions user)
                       [i := (sessions user ! i)\<lparr>s_refreshToken := refreshToken,
                                                 s_lastActive := at_lastActive clk\<rparr>]\<rparr>
                in ((accessToken, refreshToken), user', save user' st))))"

subsection \<open>\<open>toJSON\<close> and session listings\<close>

text \<open>
  A session as it leaves the service: the same fields, the refresh token optional
  (\<open>None\<close> for a key that is deleted or set to \<open>undefined\<close>).
\<close>

record SessionView =
  v_id :: string
  v_refreshToken :: "jwt option"
  v_device :: string
  v_ipAddress :: string
  v_userAgent :: string
  v_location :: "string option"
  v_isActive :: bool
  v_lastActive :: time
  v_createdAt :: time
  v_expiresAt :: time

definition toObject_session :: "UserSession \<Rightarrow> SessionView" where
  "toObject_session s =
     \<lparr>v_id = s_id s, v_refreshToken = Some (s_refreshToken s), v_device = s_device s,
      v_ipAddress = s_ipAddress s, v_userAgent = s_userAgent s, v_location = s_location s,
      v_isActive = s_isActive s, v_lastActive = s_lastActive s, v_createdAt = s_createdAt s,
      v_expiresAt = s_expiresAt s\<rparr>"

text \<open>The \<open>toJSON\<close> transform of the schema drops the refresh token of every session.\<close>

definition without_token :: "SessionView \<Rightarrow> SessionView" where
  "without_token session = session\<lparr>v_refreshToken := None\<rparr>"

record UserJson =
  j_id :: string
  j_phoneNumber :: string
  j_email :: "string option"
  j_role :: string
  j_isActive :: bool
  j_sessions :: "SessionView list"

definition toJSON :: "User \<Rightarrow> UserJson" where
  "toJSON user =
     \<lparr>j_id = u_id user, j_phoneNumber = u_phoneNumber user, j_email = u_email user,
      j_role = u_role user, j_isActive = u_isActive user,
      j_sessions = map (without_token \<circ> toObject_session) (sessions user)\<rparr>"

record AuthTokens =
  accessToken :: jwt
  refreshToken_of :: jwt
  user_of :: UserJson


subsection \<open>\<open>AuthService.refreshToken\<close>\<close>

record refresh_clock =
  at_verify :: time
  at_expiry_check :: time
  at_touch :: time
  at_tokens :: token_clock

text \<open>
  The lookup of the session: by the \<open>sessionId\<close> of the payload when it is truthy, then by
  the value of the refresh token. The result is the position of the session found.
\<close>

definition locate_session :: "JwtPayload \<Rightarrow> jwt \<Rightarrow> User \<Rightarrow> nat option" where
  "locate_session payload refreshTok user =
     (let byId = (if truthy (sessionId payload)
                  then findIndex (\<lambda>s. Some (s_id s) = sessionId payload \<and> s_isActive s)
                         (sessions user)
                  else None)
      in case byId of
           Some i \<Rightarrow> Some i
         | None \<Rightarrow> findIndex (\<lambda>s. s_refreshToken s = refreshTok \<and> s_isActive s) (sessions user))"

definition touch_session :: "refresh_clock \<Rightarrow> request option \<Rightarrow> UserSession \<Rightarrow> UserSession" where
  "touch_session clk req session =
     (let s1 = session\<lparr>s_lastActive := at_touch clk\<rparr>
      in case req of
           None \<Rightarrow> s1
         | Some _ \<Rightarrow> s1\<lparr>s_ipAddress := getClientIp req, s_userAgent := userAgentOf req\<rparr>)"

text \<open>The body of the \<open>try\<close> block.\<close>

definition refreshToken_try ::
  "config \<Rightarrow> string \<Rightarrow> refresh_clock \<Rightarrow> jwt \<Rightarrow> request option \<Rightarrow> user_store
    \<Rightarrow> (http_error + AuthTokens) \<times> user_store" where
  "refreshToken_try cfg uuid clk refreshTok req st =
     (case jwt_verify (JWT_REFRESH_SECRET cfg) (at_verify clk) refreshTok of
        None \<Rightarrow> (Inl JsonWebTokenError, st)
      | Some payload \<Rightarrow>
          (case findById st (sub payload) of
             None \<Rightarrow> (Inl (UnauthorizedException ''User not found or inactive''), st)
           | Some user \<Rightarrow>
               if \<not> u_isActive user
               then (Inl (UnauthorizedException ''User not found or inactive''), st)
               else
                 (case locate_session payload refreshTok user of
                    None \<Rightarrow>
                      (Inl (UnauthorizedException ''Invalid refresh token - session not found''),
                       st)
                  | Some i \<Rightarrow>
                      (let session = sessions user ! i in
                       if s_expiresAt session < at_expiry_check clk then
                         (Inl (UnauthorizedException ''Session expired''),
                          save (user\<lparr>sessions :=
                                   filter (\<lambda>s. s_id s \<noteq> s_id session) (sessions user)\<rparr>) st)
                       else
                         (let user1 = user\<lparr>sessions :=
                                (sessions user)[i := touch_session clk req session]\<rparr>;
                              st1 = save user1 st;
                              (tokens, user2, st2) =
                                generateTokens cfg uuid (at_tokens clk) user1 req
                                  (Some (s_id session)) st1
                          in (Inr \<lparr>accessToken = fst tokens, refreshToken_of = snd tokens,
                                   user_of = toJSON user2\<rparr>, st2))))))"

text \<open>The \<open>catch\<close> block replaces every error by one \<open>UnauthorizedException\<close>.\<close>

definition refreshToken ::
  "config \<Rightarrow> string \<Rightarrow> refresh_clock \<Rightarrow> jwt \<Rightarrow> request option \<Rightarrow> user_store
    \<Rightarrow> (http_error + AuthTokens) \<times> user_store" where
  "refreshToken cfg uuid clk refreshTok req st =
     (case refreshToken_try cfg uuid clk refreshTok req st of
        (Inl _, st') \<Rightarrow> (Inl (UnauthorizedException ''Invalid refresh token''), st')
      | (Inr tokens, st') \<Rightarrow> (Inr tokens, st'))"

subsection \<open>\<open>validateUser\<close>, \<open>logout\<close>, \<open>getUserSessions\<close>, \<open>terminateSession\<close>\<close>

definition validateUser :: "JwtPayload \<Rightarrow> time \<Rightarrow> user_store \<Rightarrow> http_error + User" where
  "validateUser payload now st =
     (case findById st (sub payload) of
        None \<Rightarrow> Inl (UnauthorizedException ''User not found or inactive'')
      | Some user \<Rightarrow>
          if \<not> u_isActive user then Inl (UnauthorizedException ''User not found or inactive'')
          else
            (case List.find (\<lambda>s. Some (s_id s) = sessionId payload \<and> s_isActive s)
                    (sessions user) of
               None \<Rightarrow> Inl (UnauthorizedException ''Session invalid or expired'')
             | Some session \<Rightarrow>
                 if s_expiresAt session < now
                 then Inl (UnauthorizedException ''Session invalid or expired'')
                 else Inr user))"

definition logout_try ::
  "string \<Rightarrow> string option \<Rightarrow> user_store \<Rightarrow> (http_error + unit) \<times> user_store" where
  "logout_try userId sid st =
     (case findById st userId of
        None \<Rightarrow> (Inl (NotFoundException ''User not found''), st)
      | Some user \<Rightarrow>
          (Inr (),
           save (user\<lparr>sessions :=
                   (if truthy sid then filter (\<lambda>s. Some (s_id s) \<noteq> sid) (sessions user)
                    else [])\<rparr>) st))"

text \<open>The \<open>catch\<close> block of \<open>logout\<close> logs the error and returns.\<close>

definition logout ::
  "string \<Rightarrow> string option \<Rightarrow> user_store \<Rightarrow> (http_error + unit) \<times> user_store" where
  "logout userId sid st =
     (case logout_try userId sid st of
        (Inl _, st') \<Rightarrow> (Inr (), st')
      | (Inr u, st') \<Rightarrow> (Inr u, st'))"

text \<open>
  The \<open>user\<close> argument of the session-management operations: the identity fields of
  \<open>req.user\<close>, from which the id is taken as \<open>user._id ? user._id.toString() : user.id || user.sub\<close>.
\<close>

record user_ref =
  ref__id :: "string option"
  ref_id :: "string option"
  ref_sub :: "string option"

definition userIdOf :: "user_ref \<Rightarrow> string option" where
  "userIdOf user =
     (case ref__id user of
        Some i \<Rightarrow> Some i
      | None \<Rightarrow> if truthy (ref_id user) then ref_id user else ref_sub user)"

definition findByRef :: "user_store \<Rightarrow> user_ref \<Rightarrow> User option" where
  "findByRef st user = (case userIdOf user of None \<Rightarrow> None | Some k \<Rightarrow> findById st k)"

definition getUserSessions ::
  "user_ref \<Rightarrow> time \<Rightarrow> user_store \<Rightarrow> (http_error + SessionView list) \<times> user_store" where
  "getUserSessions user now st =
     (case findByRef st user of
        None \<Rightarrow> (Inl (NotFoundException ''User not found''), st)
      | Some userDoc \<Rightarrow>
          (let activeSessions =
                 filter (\<lambda>session. s_isActive session \<and> now < s_expiresAt session)
                   (sessions userDoc);
               changed = (length activeSessions \<noteq> length (sessions userDoc));
               userDoc' = (if changed then userDoc\<lparr>sessions := activeSessions\<rparr> else userDoc);
               st' = (if changed then save userDoc' st else st);
               plainSessions = map toObject_session (sessions userDoc')
           in (Inr (map (\<lambda>session. session\<lparr>v_refreshToken := None\<rparr>) plainSessions), st')))"

definition terminateSession ::
  "user_ref \<Rightarrow> string \<Rightarrow> user_store \<Rightarrow> (http_error + string) \<times> user_store" where
  "terminateSession user sid st =
     (case findByRef st user of
        None \<Rightarrow> (Inl (NotFoundException ''User not found''), st)
      | Some userDoc \<Rightarrow>
          (let originalSessionCount = length (sessions userDoc);
               remaining = filter (\<lambda>s. s_id s \<noteq> sid) (sessions userDoc)
           in if length remaining = originalSessionCount
              then (Inl (NotFoundException ''Session not found''), st)
              else (Inr ''Session terminated successfully'',
                    save (userDoc\<lparr>sessions := remaining\<rparr>) st)))"

section \<open>\<open>JwtStrategy\<close> and \<open>JwtAuthGuard\<close>\<close>

text \<open>The normalized user object that \<open>JwtStrategy.validate\<close> returns.\<close>

record request_user =
  ru_userId :: string
  ru_sub :: string
  ru_sessionId :: "string option"
  ru_email :: "string option"
  ru_phoneNumber :: string
  ru_role :: string
  ru_isActive :: bool

definition strategy_validate ::
  "JwtPayload \<Rightarrow> time \<Rightarrow> user_store \<Rightarrow> http_error + request_user" where
  "strategy_validate payload now st =
     (case validateUser payload now st of
        Inl _ \<Rightarrow> Inl (UnauthorizedException ''Invalid token'')
      | Inr user \<Rightarrow>
          Inr \<lparr>ru_userId = u_id user, ru_sub = sub payload, ru_sessionId = sessionId payload,
               ru_email = u_email user, ru_phoneNumber = u_phoneNumber user,
               ru_role = u_role user, ru_isActive = u_isActive user\<rparr>)"

text \<open>
  Modelled from the spec: the per-request state machine of the guard's base class
  (\<open>AuthGuard('jwt')\<close> of the library \<open>@nestjs/passport\<close> with the \<open>passport-jwt\<close> strategy,
  not part of the repository). No token, or a token that does not verify, gives no error
  and no user; a verified token runs \<open>JwtStrategy.validate\<close>, whose exception is the error
  and whose result is the user. The pair is handed to \<open>handleRequest\<close>.
\<close>

definition passport_authenticate ::
  "config \<Rightarrow> time \<Rightarrow> time \<Rightarrow> jwt option \<Rightarrow> user_store
    \<Rightarrow> http_error option \<times> request_user option" where
  "passport_authenticate cfg t_verify t_validate bearer st =
     (case bearer of
        None \<Rightarrow> (None, None)
      | Some token \<Rightarrow>
          (case jwt_verify (JWT_SECRET cfg) t_verify token of
             None \<Rightarrow> (None, None)
           | Some payload \<Rightarrow>
               (case strategy_validate payload t_validate st of
                  Inl e \<Rightarrow> (Some e, None)
                | Inr user \<Rightarrow> (None, Some user))))"

text \<open>
  \<open>JwtAuthGuard.handleRequest\<close>: \<open>Inl\<close> is the exception thrown, \<open>Inr\<close> the value attached to
  the request as its user (\<open>None\<close> for \<open>null\<close>).
\<close>

definition handleRequest ::
  "bool \<Rightarrow> http_error option \<Rightarrow> request_user option \<Rightarrow> http_error + request_user option" where
  "handleRequest isPublic err user =
     (if isPublic then
        (if err \<noteq> None \<or> user = None then Inr None else Inr user)
      else
        (if err \<noteq> None \<or> user = None
         then Inl (case err of
                     Some e \<Rightarrow> e
                   | None \<Rightarrow> UnauthorizedException ''Access token required'')
         else Inr user))"

definition canActivate ::
  "config \<Rightarrow> bool \<Rightarrow> time \<Rightarrow> time \<Rightarrow> jwt option \<Rightarrow> user_store
    \<Rightarrow> http_error + request_user option" where
  "canActivate cfg isPublic t_verify t_validate bearer st =
     (case passport_authenticate cfg t_verify t_validate bearer st of
        (err, user) \<Rightarrow> handleRequest isPublic err user)"


section \<open>Concrete data\<close>

text \<open>A configuration, tokens, sessions and collections on which the operations are run.\<close>

definition demo_config :: config where
  "demo_config = \<lparr>JWT_SECRET = ''access-secret'', JWT_REFRESH_SECRET = ''refresh-secret'',
     JWT_REFRESH_EXPIRATION = Some ''7d'', access_ttl = 900, refresh_ttl = 604800\<rparr>"

definition demo_payload :: "string \<Rightarrow> string \<Rightarrow> JwtPayload" where
  "demo_payload u sid =
     \<lparr>sub = u, p_phoneNumber = ''+237600000000'', p_email = None, p_role = ''agent'',
      sessionId = Some sid\<rparr>"

definition demo_access_token :: "string \<Rightarrow> jwt" where
  "demo_access_token u =
     jwt_sign (JWT_SECRET demo_config) (access_ttl demo_config) 1000000 (demo_payload u ''s1'')"

definition demo_refresh_token :: "string \<Rightarrow> string \<Rightarrow> jwt" where
  "demo_refresh_token u sid =
     jwt_sign (JWT_REFRESH_SECRET demo_config) (refresh_ttl demo_config) 1000000
       (demo_payload u sid)"

definition demo_handshake :: "string \<Rightarrow> handshake" where
  "demo_handshake u =
     \<lparr>hs_auth_token = Some (demo_access_token u), hs_authorization = None,
      hs_query_token = None\<rparr>"

text \<open>A session of user \<open>u1\<close>, created at instant 1000000 and expiring seven days later.\<close>

definition demo_session :: "string \<Rightarrow> time \<Rightarrow> UserSession" where
  "demo_session sid lastActive =
     \<lparr>s_id = sid, s_refreshToken = demo_refresh_token ''u1'' sid, s_device = ''Chrome on Linux'',
      s_ipAddress = ''10.0.0.1'', s_userAgent = ''Mozilla/5.0'', s_location = Some ''Unknown Location'',
      s_isActive = True, s_lastActive = lastActive, s_createdAt = 1000000,
      s_expiresAt = 605800000\<rparr>"

definition demo_user :: "UserSession list \<Rightarrow> User" where
  "demo_user ss =
     \<lparr>u_id = ''u1'', u_phoneNumber = ''+237600000000'', u_email = None, u_role = ''agent'',
      u_isActive = True, sessions = ss\<rparr>"

text \<open>
  A refresh token of user \<open>u1\<close> issued before session ids were embedded in the payload, and
  the session that stores it.
\<close>

definition legacy_refresh_token :: jwt where
  "legacy_refresh_token =
     jwt_sign (JWT_REFRESH_SECRET demo_config) (refresh_ttl demo_config) 1000000
       ((demo_payload ''u1'' [])\<lparr>sessionId := None\<rparr>)"

definition legacy_session :: UserSession where
  "legacy_session = (demo_session ''s1'' 1000000)\<lparr>s_refreshToken := legacy_refresh_token\<rparr>"

definition demo_store :: "UserSession list \<Rightarrow> user_store" where
  "demo_store ss = Map.empty(''u1'' \<mapsto> demo_user ss)"

definition demo_token_clock :: "time \<Rightarrow> token_clock" where
  "demo_token_clock t =
     \<lparr>at_sign_access = t, at_sign_refresh = t, at_expiry = t, at_lastActive = t,
      at_createdAt = t, at_cleanup = t\<rparr>"

definition demo_refresh_clock :: "time \<Rightarrow> refresh_clock" where
  "demo_refresh_clock t =
     \<lparr>at_verify = t, at_expiry_check = t, at_touch = t, at_tokens = demo_token_clock t\<rparr>"

definition ten_ids :: "string list" where
  "ten_ids = [''s0'', ''s1'', ''s2'', ''s3'', ''s4'', ''s5'', ''s6'', ''s7'', ''s8'', ''s9'']"

text \<open>Ten sessions of user \<open>u1\<close>, last active one second apart from instant \<open>t\<close> on.\<close>

definition ten_sessions_from :: "time \<Rightarrow> UserSession list" where
  "ten_sessions_from t =
     map (\<lambda>(sid, k). demo_session sid (t + 1000 * k)) (zip ten_ids [0, 1, 2, 3, 4, 5, 6, 7, 8, 9])"


section \<open>The presence registry: consistency and connection counts\<close>


lemma registry_consistent_iff:
  "registry_consistent r \<longleftrightarrow>
     distinct (map fst (userSockets r)) \<and> distinct (map fst (socketToUser r)) \<and>
     (\<forall>u S c. map_of (userSockets r) u = Some S \<longrightarrow> c \<in> set S \<longrightarrow>
        map_of (socketToUser r) c = Some u) \<and>
     (\<forall>c u. map_of (socketToUser r) c = Some u \<longrightarrow>
        (\<exists>S. map_of (userSockets r) u = Some S \<and> c \<in> set S))"
proof (cases "distinct (map fst (userSockets r)) \<and> distinct (map fst (socketToUser r))")
  case False
  then show ?thesis by (auto simp: registry_consistent_def)
next
  case True
  then have d1: "distinct (map fst (userSockets r))" and d2: "distinct (map fst (socketToUser r))"
    by simp_all
  have a: "(\<forall>(u, S) \<in> set (userSockets r). \<forall>c \<in> set S. map_of (socketToUser r) c = Some u) \<longleftrightarrow>
           (\<forall>u S c. map_of (userSockets r) u = Some S \<longrightarrow> c \<in> set S \<longrightarrow>
              map_of (socketToUser r) c = Some u)"
    using d1 by (simp only: map_of_eq_Some_iff) blast
  have b: "(\<forall>(c, u) \<in> set (socketToUser r).
              case map_of (userSockets r) u of None \<Rightarrow> False | Some S \<Rightarrow> c \<in> set S) \<longleftrightarrow>
           (\<forall>c u. map_of (socketToUser r) c = Some u \<longrightarrow>
              (\<exists>S. map_of (userSockets r) u = Some S \<and> c \<in> set S))"
  proof -
    have "\<And>c u. (case map_of (userSockets r) u of None \<Rightarrow> False | Some S \<Rightarrow> c \<in> set S) \<longleftrightarrow>
                 (\<exists>S. map_of (userSockets r) u = Some S \<and> c \<in> set S)"
      by (simp split: option.splits)
    then show ?thesis using d2 map_of_eq_Some_iff[OF d2] by auto
  qed
  show ?thesis unfolding registry_consistent_def using True a b by simp
qed

lemma map_of_track_userSockets:
  "map_of (userSockets (track_socket u c r)) =
     (map_of (userSockets r))(u \<mapsto> set_add c (case map_of (userSockets r) u of None \<Rightarrow> [] | Some S \<Rightarrow> S))"
  by (auto simp: track_socket_def Let_def AList.map_of_map_entry AList.update_conv' fun_eq_iff
      split: option.splits)

lemma map_of_track_socketToUser:
  "map_of (socketToUser (track_socket u c r)) = (map_of (socketToUser r))(c \<mapsto> u)"
  by (simp add: track_socket_def Let_def AList.update_conv')

lemma distinct_track:
  "distinct (map fst (userSockets r)) \<Longrightarrow> distinct (map fst (userSockets (track_socket u c r)))"
  "distinct (map fst (socketToUser r)) \<Longrightarrow> distinct (map fst (socketToUser (track_socket u c r)))"
  by (simp_all add: track_socket_def Let_def AList.distinct_map_entry AList.distinct_update)

lemma set_set_add: "set (set_add c S) = insert c (set S)"
  by (auto simp: set_add_def)

lemma track_socket_consistent:
  assumes inv: "registry_consistent r"
    and fresh: "map_of (socketToUser r) c = None \<or> map_of (socketToUser r) c = Some u"
  shows "registry_consistent (track_socket u c r)"
proof -
  let ?r' = "track_socket u c r"
  from inv have d1: "distinct (map fst (userSockets r))"
    and d2: "distinct (map fst (socketToUser r))"
    and fwd: "\<And>v S x. map_of (userSockets r) v = Some S \<Longrightarrow> x \<in> set S \<Longrightarrow>
                 map_of (socketToUser r) x = Some v"
    and bwd: "\<And>x v. map_of (socketToUser r) x = Some v \<Longrightarrow>
                 \<exists>S. map_of (userSockets r) v = Some S \<and> x \<in> set S"
    unfolding registry_consistent_iff by blast+
  have f': "map_of (socketToUser ?r') x = Some v"
    if "map_of (userSockets ?r') v = Some S" "x \<in> set S" for v S x
  proof (cases "x = c")
    case True
    show ?thesis
    proof (cases "v = u")
      case True
      with \<open>x = c\<close> show ?thesis by (simp add: map_of_track_socketToUser)
    next
      case False
      with that have "map_of (userSockets r) v = Some S" by (simp add: map_of_track_userSockets)
      with that(2) True have "map_of (socketToUser r) c = Some v" using fwd by blast
      with fresh False show ?thesis by simp
    qed
  next
    case False
    have "map_of (socketToUser r) x = Some v"
    proof (cases "v = u")
      case True
      with that False obtain S0 where "map_of (userSockets r) u = Some S0" "x \<in> set S0"
        by (auto simp: map_of_track_userSockets set_set_add split: option.splits)
      with True show ?thesis using fwd by blast
    next
      case False
      with that show ?thesis using fwd by (simp add: map_of_track_userSockets)
    qed
    with False show ?thesis by (simp add: map_of_track_socketToUser)
  qed
  have b': "\<exists>S. map_of (userSockets ?r') v = Some S \<and> x \<in> set S"
    if "map_of (socketToUser ?r') x = Some v" for x v
  proof (cases "x = c")
    case True
    with that have "v = u" by (simp add: map_of_track_socketToUser)
    with True show ?thesis by (simp add: map_of_track_userSockets set_set_add)
  next
    case False
    with that have "map_of (socketToUser r) x = Some v" by (simp add: map_of_track_socketToUser)
    then obtain S where S: "map_of (userSockets r) v = Some S" "x \<in> set S" using bwd by blast
    then show ?thesis by (cases "v = u") (simp_all add: map_of_track_userSockets set_set_add)
  qed
  show ?thesis
    unfolding registry_consistent_iff
    using distinct_track(1)[OF d1] distinct_track(2)[OF d2] f' b' by blast
qed

lemma map_of_disconnect_socketToUser:
  "map_of (socketToUser (handleDisconnect c r)) =
     (case map_of (socketToUser r) c of
        None \<Rightarrow> map_of (socketToUser r)
      | Some u \<Rightarrow> if u = [] then map_of (socketToUser r) else (map_of (socketToUser r))(c := None))"
  by (simp add: handleDisconnect_def Let_def AList.delete_conv' split: option.splits)

lemma map_of_disconnect_userSockets:
  "map_of (userSockets (handleDisconnect c r)) =
     (case map_of (socketToUser r) c of
        None \<Rightarrow> map_of (userSockets r)
      | Some u \<Rightarrow>
          if u = [] then map_of (userSockets r)
          else (case map_of (userSockets r) u of
                  None \<Rightarrow> map_of (userSockets r)
                | Some S \<Rightarrow> if set_delete c S = [] then (map_of (userSockets r))(u := None)
                            else (map_of (userSockets r))(u \<mapsto> set_delete c S)))"
  by (auto simp: handleDisconnect_def Let_def AList.delete_conv' AList.map_of_map_entry fun_eq_iff
      split: option.splits)

lemma distinct_disconnect:
  "distinct (map fst (userSockets r)) \<Longrightarrow> distinct (map fst (userSockets (handleDisconnect c r)))"
  "distinct (map fst (socketToUser r)) \<Longrightarrow> distinct (map fst (socketToUser (handleDisconnect c r)))"
  by (simp_all add: handleDisconnect_def Let_def AList.distinct_map_entry AList.distinct_delete
      split: option.splits)

lemma handleDisconnect_consistent:
  assumes inv: "registry_consistent r"
  shows "registry_consistent (handleDisconnect c r)"
proof (cases "map_of (socketToUser r) c")
  case None
  then show ?thesis using inv by (simp add: handleDisconnect_def)
next
  case (Some u)
  show ?thesis
  proof (cases "u = []")
    case True
    with Some show ?thesis using inv by (simp add: handleDisconnect_def)
  next
    case False
    let ?r' = "handleDisconnect c r"
    from inv have d1: "distinct (map fst (userSockets r))"
      and d2: "distinct (map fst (socketToUser r))"
      and fwd: "\<And>v S x. map_of (userSockets r) v = Some S \<Longrightarrow> x \<in> set S \<Longrightarrow>
                 map_of (socketToUser r) x = Some v"
      and bwd: "\<And>x v. map_of (socketToUser r) x = Some v \<Longrightarrow>
                 \<exists>S. map_of (userSockets r) v = Some S \<and> x \<in> set S"
      unfolding registry_consistent_iff by blast+
    from bwd[OF Some] obtain S0 where S0: "map_of (userSockets r) u = Some S0" "c \<in> set S0"
      by blast
    have su': "map_of (socketToUser ?r') = (map_of (socketToUser r))(c := None)"
      using Some False by (simp add: map_of_disconnect_socketToUser)
    have us': "map_of (userSockets ?r') =
                 (if set_delete c S0 = [] then (map_of (userSockets r))(u := None)
                  else (map_of (userSockets r))(u \<mapsto> set_delete c S0))"
      using Some False S0 by (simp add: map_of_disconnect_userSockets)
    have f': "map_of (socketToUser ?r') x = Some v"
      if "map_of (userSockets ?r') v = Some S" "x \<in> set S" for v S x
    proof -
      have "(v \<noteq> u \<and> map_of (userSockets r) v = Some S) \<or> (v = u \<and> S = set_delete c S0)"
        using that(1) unfolding us' by (auto split: if_splits)
      then have "map_of (socketToUser r) x = Some v \<and> x \<noteq> c"
      proof
        assume a: "v \<noteq> u \<and> map_of (userSockets r) v = Some S"
        with that(2) have "map_of (socketToUser r) x = Some v" using fwd by blast
        with a Some show ?thesis by auto
      next
        assume a: "v = u \<and> S = set_delete c S0"
        with that(2) have "x \<in> set S0" "x \<noteq> c" by (simp_all add: set_delete_def)
        with S0(1) a show ?thesis using fwd by blast
      qed
      then show ?thesis by (simp add: su')
    qed
    have b': "\<exists>S. map_of (userSockets ?r') v = Some S \<and> x \<in> set S"
      if "map_of (socketToUser ?r') x = Some v" for x v
    proof -
      from that have ne: "x \<noteq> c" and old: "map_of (socketToUser r) x = Some v"
        unfolding su' by (auto split: if_splits)
      from bwd[OF old] obtain S where S: "map_of (userSockets r) v = Some S" "x \<in> set S" by blast
      show ?thesis
      proof (cases "v = u")
        case True
        with S S0 have "S = S0" by simp
        with S ne have "x \<in> set (set_delete c S0)" by (simp add: set_delete_def)
        then have "set_delete c S0 \<noteq> []" by auto
        with True \<open>x \<in> set (set_delete c S0)\<close> show ?thesis unfolding us' by simp
      next
        case False
        with S show ?thesis unfolding us' by simp
      qed
    qed
    show ?thesis
      unfolding registry_consistent_iff
      using distinct_disconnect(1)[OF d1] distinct_disconnect(2)[OF d2] f' b' by blast
  qed
qed


lemma handleConnection_registry:
  "fst (handleConnection cfg now c hs r) =
     (case connecting_user cfg now hs of None \<Rightarrow> r | Some u \<Rightarrow> track_socket u c r)"
  by (simp add: handleConnection_def connecting_user_def Let_def split: option.splits)

lemma gateway_step_consistent:
  assumes "registry_consistent r" and "no_id_reuse cfg [e] r"
  shows "registry_consistent (gateway_step cfg e r)"
proof (cases e)
  case (Connect now c hs)
  show ?thesis
  proof (cases "connecting_user cfg now hs")
    case None
    with Connect assms(1) show ?thesis by (simp add: handleConnection_registry)
  next
    case (Some u)
    with Connect assms(2)
    have "map_of (socketToUser r) c = None \<or> map_of (socketToUser r) c = Some u"
      by (auto split: option.splits)
    from track_socket_consistent[OF assms(1) this] Connect Some
    show ?thesis by (simp add: handleConnection_registry)
  qed
next
  case (Disconnect c)
  with assms(1) show ?thesis by (simp add: handleDisconnect_consistent)
qed

lemma gateway_run_consistent:
  "registry_consistent r \<Longrightarrow> no_id_reuse cfg es r \<Longrightarrow> registry_consistent (gateway_run cfg es r)"
proof (induction es arbitrary: r)
  case Nil
  then show ?case by simp
next
  case (Cons e es)
  from Cons.prems(2) have "no_id_reuse cfg [e] r" by simp
  from gateway_step_consistent[OF Cons.prems(1) this]
  have "registry_consistent (gateway_step cfg e r)" .
  moreover from Cons.prems(2) have "no_id_reuse cfg es (gateway_step cfg e r)" by simp
  ultimately show ?case using Cons.IH by simp
qed

text \<open>
  Claim C5. The socket server gives every connection an id of its own and calls
  \<open>handleConnection\<close> once for it, so no socket id connects while it is registered to a
  different identity. Starting from the empty registry, after every such sequence of
  connections and disconnections the forward and the reverse map are mutually consistent:
  every socket id in an identity's set has its one reverse entry, pointing to that
  identity, and every reverse entry's socket id is in the set of the identity it names.
\<close>

theorem presence_registry_consistent:
  assumes "no_id_reuse cfg es empty_registry"
  shows "registry_consistent (gateway_run cfg es empty_registry)"
proof -
  have "registry_consistent empty_registry"
    by (simp add: registry_consistent_def empty_registry_def)
  then show ?thesis using assms by (rule gateway_run_consistent)
qed

lemma demo_connecting_user:
  "u \<noteq> [] \<Longrightarrow> connecting_user demo_config 1000500 (demo_handshake u) = Some u"
  by (simp add: connecting_user_def demo_handshake_def extract_token_def truthy_token_def
      demo_access_token_def demo_payload_def jwt_sign_def jwt_verify_def demo_config_def)

theorem presence_registry_consistent_witness:
  "no_id_reuse demo_config
     [Connect 1000500 ''c1'' (demo_handshake ''u1''), Connect 1000500 ''c2'' (demo_handshake ''u1''),
      Disconnect ''c1''] empty_registry \<and>
   registry_consistent (gateway_run demo_config
     [Connect 1000500 ''c1'' (demo_handshake ''u1''), Connect 1000500 ''c2'' (demo_handshake ''u1''),
      Disconnect ''c1''] empty_registry)"
proof -
  have h: "no_id_reuse demo_config
     [Connect 1000500 ''c1'' (demo_handshake ''u1''), Connect 1000500 ''c2'' (demo_handshake ''u1''),
      Disconnect ''c1''] empty_registry"
    by (simp add: handleConnection_registry demo_connecting_user track_socket_def
        empty_registry_def set_add_def)
  show ?thesis using h presence_registry_consistent[OF h] by simp
qed

lemma track_two_userSockets:
  assumes "map_of (userSockets r) u = None" and "c1 \<noteq> c2"
  shows "map_of (userSockets (track_socket u c2 (track_socket u c1 r))) u = Some [c1, c2]"
    and "map_of (socketToUser (track_socket u c2 (track_socket u c1 r))) c1 = Some u"
    and "map_of (socketToUser (track_socket u c2 (track_socket u c1 r))) c2 = Some u"
  using assms by (simp_all add: map_of_track_userSockets map_of_track_socketToUser set_add_def)

lemma disconnect_one_of_two:
  assumes "map_of (userSockets r) u = Some [c1, c2]" and "c1 \<noteq> c2" and "u \<noteq> []"
    and "map_of (socketToUser r) c1 = Some u" and "map_of (socketToUser r) c2 = Some u"
    and "(d, k) = (c1, c2) \<or> (d, k) = (c2, c1)"
  shows "map_of (userSockets (handleDisconnect d r)) u = Some [k]"
    and "map_of (socketToUser (handleDisconnect d r)) k = Some u"
  using assms
  by (auto simp: map_of_disconnect_userSockets map_of_disconnect_socketToUser set_delete_def)

lemma disconnect_last:
  assumes "map_of (userSockets r) u = Some [k]" and "u \<noteq> []"
    and "map_of (socketToUser r) k = Some u"
  shows "map_of (userSockets (handleDisconnect k r)) u = None"
  using assms
  by (simp add: map_of_disconnect_userSockets set_delete_def)

lemma not_connected_iff: "u \<notin> set (getConnectedUserIds r) \<longleftrightarrow> map_of (userSockets r) u = None"
  by (simp add: getConnectedUserIds_def map_of_eq_None_iff)

text \<open>
  Claim C6. For an identity \<open>u\<close> with no entry in the registry, after two connections with
  distinct socket ids have authenticated as \<open>u\<close>, disconnecting either one leaves \<open>u\<close>
  connected with a connection count of 1; disconnecting the other one as well leaves \<open>u\<close>
  not connected and absent from the connected user ids.
\<close>

theorem two_connections_then_disconnects:
  assumes offline: "map_of (userSockets r) u = None"
    and distinct_ids: "c1 \<noteq> c2"
    and auth1: "connecting_user cfg t1 hs1 = Some u"
    and auth2: "connecting_user cfg t2 hs2 = Some u"
    and order: "(d, k) = (c1, c2) \<or> (d, k) = (c2, c1)"
  shows "(let r2 = fst (handleConnection cfg t2 c2 hs2 (fst (handleConnection cfg t1 c1 hs1 r)))
          in isUserConnected (handleDisconnect d r2) u \<and>
             getUserConnectionCount (handleDisconnect d r2) u = 1 \<and>
             \<not> isUserConnected (handleDisconnect k (handleDisconnect d r2)) u \<and>
             u \<notin> set (getConnectedUserIds (handleDisconnect k (handleDisconnect d r2))))"
proof -
  from auth1 have ne: "u \<noteq> []"
    by (auto simp: connecting_user_def split: option.splits if_splits)
  define r2 where "r2 = fst (handleConnection cfg t2 c2 hs2 (fst (handleConnection cfg t1 c1 hs1 r)))"
  have r2: "r2 = track_socket u c2 (track_socket u c1 r)"
    by (simp add: r2_def handleConnection_registry auth1 auth2)
  note two = track_two_userSockets[OF offline distinct_ids, folded r2]
  note one = disconnect_one_of_two[OF two(1) distinct_ids ne two(2) two(3) order]
  note none = disconnect_last[OF one(1) ne one(2)]
  have "isUserConnected (handleDisconnect d r2) u \<and>
        getUserConnectionCount (handleDisconnect d r2) u = 1 \<and>
        \<not> isUserConnected (handleDisconnect k (handleDisconnect d r2)) u \<and>
        u \<notin> set (getConnectedUserIds (handleDisconnect k (handleDisconnect d r2)))"
    using one(1) none
    by (simp add: isUserConnected_def getUserConnectionCount_def not_connected_iff)
  then show ?thesis unfolding r2_def by (simp add: Let_def)
qed

theorem two_connections_then_disconnects_witness:
  "map_of (userSockets empty_registry) ''u1'' = None \<and> ''c1'' \<noteq> ''c2'' \<and>
   connecting_user demo_config 1000500 (demo_handshake ''u1'') = Some ''u1'' \<and>
   (let r2 = fst (handleConnection demo_config 1000500 ''c2'' (demo_handshake ''u1'')
                (fst (handleConnection demo_config 1000500 ''c1'' (demo_handshake ''u1'')
                   empty_registry)))
    in isUserConnected (handleDisconnect ''c2'' r2) ''u1'' \<and>
       getUserConnectionCount (handleDisconnect ''c2'' r2) ''u1'' = 1 \<and>
       \<not> isUserConnected (handleDisconnect ''c1'' (handleDisconnect ''c2'' r2)) ''u1'' \<and>
       ''u1'' \<notin> set (getConnectedUserIds (handleDisconnect ''c1'' (handleDisconnect ''c2'' r2))))"
proof -
  have h1: "map_of (userSockets empty_registry) ''u1'' = None"
    by (simp add: empty_registry_def)
  have h2: "''c1'' \<noteq> ''c2''" by simp
  have h3: "connecting_user demo_config 1000500 (demo_handshake ''u1'') = Some ''u1''"
    by (simp add: demo_connecting_user)
  have h4: "(''c2'', ''c1'') = (''c1'', ''c2'') \<or> (''c2'', ''c1'') = (''c2'', ''c1'')" by simp
  show ?thesis
    using h1 h3 two_connections_then_disconnects[OF h1 h2 h3 h3 h4] by (simp add: Let_def)
qed

section \<open>Session revocation, listings and the guard\<close>

lemma findById_Some: "findById st k = Some user \<Longrightarrow> u_id user = k"
  by (auto simp: findById_def)

lemma findById_save: "findById (save user st) (u_id user) = Some user"
  by (simp add: findById_def save_def)

lemma logout_store:
  "snd (logout userId sid st) =
     (case findById st userId of
        None \<Rightarrow> st
      | Some user \<Rightarrow>
          save (user\<lparr>sessions := (if truthy sid then filter (\<lambda>s. Some (s_id s) \<noteq> sid) (sessions user)
                                   else [])\<rparr>) st)"
  by (simp add: logout_def logout_try_def split: option.splits)

lemma logout_succeeds: "fst (logout userId sid st) = Inr ()"
  by (simp add: logout_def logout_try_def split: option.splits)

lemma validateUser_no_session:
  assumes "findById st (sub payload) = Some user"
    and "\<forall>s \<in> set (sessions user). Some (s_id s) \<noteq> sessionId payload"
  shows "is_unauthorized (validateUser payload now st)"
proof -
  from assms(2)
  have "List.find (\<lambda>s. Some (s_id s) = sessionId payload \<and> s_isActive s) (sessions user) = None"
    by (auto simp: find_None_iff)
  with assms(1) show ?thesis by (simp add: validateUser_def is_unauthorized_def)
qed

lemma validateUser_no_user:
  "findById st (sub payload) = None \<Longrightarrow> is_unauthorized (validateUser payload now st)"
  by (simp add: validateUser_def is_unauthorized_def)

lemma validateUser_after_logout:
  assumes "sub payload = userId" and "arg = Some sid \<or> arg = None"
    and "sessionId payload = Some sid"
  shows "is_unauthorized (validateUser payload now (snd (logout userId arg st)))"
proof (cases "findById st userId")
  case None
  then have "snd (logout userId arg st) = st" by (simp add: logout_store)
  with None assms(1) show ?thesis by (simp add: validateUser_no_user)
next
  case (Some user)
  let ?user' = "user\<lparr>sessions := (if truthy arg then filter (\<lambda>s. Some (s_id s) \<noteq> arg) (sessions user)
                                   else [])\<rparr>"
  have id: "u_id ?user' = userId" using findById_Some[OF Some] by simp
  have st': "snd (logout userId arg st) = save ?user' st" using Some by (simp add: logout_store)
  have found: "findById (save ?user' st) (sub payload) = Some ?user'"
    using findById_save[of ?user' st] id assms(1) by simp
  have "\<forall>s \<in> set (sessions ?user'). Some (s_id s) \<noteq> sessionId payload"
    using assms(2,3) by (auto simp: truthy_def)
  from validateUser_no_session[OF found this] st' show ?thesis by simp
qed

lemma canActivate_protected_invalid_session:
  assumes "jwt_verify (JWT_SECRET cfg) tv tok = Some payload"
    and "is_unauthorized (validateUser payload tn st)"
  shows "is_unauthorized (canActivate cfg False tv tn (Some tok) st)"
  using assms
  by (auto simp: canActivate_def passport_authenticate_def strategy_validate_def
      handleRequest_def is_unauthorized_def split: sum.splits)

text \<open>
  Claim C2. After \<open>logout\<close> of a user, for one session or for all of them, \<open>validateUser\<close>
  with a payload of that user that carries the id of the removed session fails with an
  \<open>UnauthorizedException\<close>, whatever the instant; and so does the guard of a protected
  route for every access token that verifies to this payload.
\<close>

theorem logged_out_session_unauthorized:
  assumes "sub payload = userId" and "sessionId payload = Some sid"
    and "arg = Some sid \<or> arg = None"
  shows "is_unauthorized (validateUser payload now (snd (logout userId arg st))) \<and>
         (\<forall>tok tv. jwt_verify (JWT_SECRET cfg) tv tok = Some payload \<longrightarrow>
            is_unauthorized (canActivate cfg False tv now (Some tok) (snd (logout userId arg st))))"
  using validateUser_after_logout[OF assms(1) assms(3) assms(2)]
    canActivate_protected_invalid_session by blast

lemma demo_validate_ok:
  "validateUser (demo_payload ''u1'' ''s1'') 2000000 (demo_store [demo_session ''s1'' 1000000])
     = Inr (demo_user [demo_session ''s1'' 1000000])"
  by (simp add: validateUser_def demo_payload_def demo_store_def demo_user_def demo_session_def
      findById_def)

theorem logged_out_session_unauthorized_witness:
  "sub (demo_payload ''u1'' ''s1'') = ''u1'' \<and> sessionId (demo_payload ''u1'' ''s1'') = Some ''s1'' \<and>
   jwt_verify (JWT_SECRET demo_config) 1000500 (demo_access_token ''u1'')
     = Some (demo_payload ''u1'' ''s1'') \<and>
   \<not> is_unauthorized (validateUser (demo_payload ''u1'' ''s1'') 2000000
       (demo_store [demo_session ''s1'' 1000000])) \<and>
   is_unauthorized (validateUser (demo_payload ''u1'' ''s1'') 2000000
       (snd (logout ''u1'' (Some ''s1'') (demo_store [demo_session ''s1'' 1000000])))) \<and>
   is_unauthorized (canActivate demo_config False 1000500 2000000 (Some (demo_access_token ''u1''))
       (snd (logout ''u1'' (Some ''s1'') (demo_store [demo_session ''s1'' 1000000]))))"
proof -
  have h1: "sub (demo_payload ''u1'' ''s1'') = ''u1''" by (simp add: demo_payload_def)
  have h2: "sessionId (demo_payload ''u1'' ''s1'') = Some ''s1''" by (simp add: demo_payload_def)
  have h3: "Some ''s1'' = Some ''s1'' \<or> Some ''s1'' = None" by simp
  have h4: "jwt_verify (JWT_SECRET demo_config) 1000500 (demo_access_token ''u1'')
     = Some (demo_payload ''u1'' ''s1'')"
    by (simp add: jwt_verify_def demo_access_token_def jwt_sign_def demo_config_def)
  show ?thesis
    using h1 h2 h4 logged_out_session_unauthorized[OF h1 h2 h3, of 2000000
        "demo_store [demo_session ''s1'' 1000000]" demo_config]
    by (simp add: demo_validate_ok is_unauthorized_def)
qed

text \<open>
  Claim C9. Every session record that \<open>getUserSessions\<close> returns has no refresh token.
\<close>

theorem listed_sessions_hide_refresh_token:
  assumes "getUserSessions user now st = (Inr views, st')"
  shows "\<forall>v \<in> set views. v_refreshToken v = None"
  using assms
  by (auto simp: getUserSessions_def Let_def split: option.splits)

lemma demo_findByRef:
  "findByRef (demo_store ss) \<lparr>ref__id = Some ''u1'', ref_id = Some ''u1'', ref_sub = Some ''u1''\<rparr>
     = Some (demo_user ss)"
  by (simp add: findByRef_def userIdOf_def findById_def demo_store_def demo_user_def)

theorem listed_sessions_hide_refresh_token_witness:
  "getUserSessions \<lparr>ref__id = Some ''u1'', ref_id = Some ''u1'', ref_sub = Some ''u1''\<rparr> 2000000
     (demo_store [demo_session ''s1'' 1000000, demo_session ''s2'' 1500000])
   = (Inr (map (\<lambda>s. (toObject_session s)\<lparr>v_refreshToken := None\<rparr>)
              [demo_session ''s1'' 1000000, demo_session ''s2'' 1500000]),
      demo_store [demo_session ''s1'' 1000000, demo_session ''s2'' 1500000]) \<and>
   map v_refreshToken (map (\<lambda>s. (toObject_session s)\<lparr>v_refreshToken := None\<rparr>)
              [demo_session ''s1'' 1000000, demo_session ''s2'' 1500000]) = [None, None]"
proof -
  have h: "getUserSessions \<lparr>ref__id = Some ''u1'', ref_id = Some ''u1'', ref_sub = Some ''u1''\<rparr> 2000000
     (demo_store [demo_session ''s1'' 1000000, demo_session ''s2'' 1500000])
   = (Inr (map (\<lambda>s. (toObject_session s)\<lparr>v_refreshToken := None\<rparr>)
              [demo_session ''s1'' 1000000, demo_session ''s2'' 1500000]),
      demo_store [demo_session ''s1'' 1000000, demo_session ''s2'' 1500000])"
    by (simp add: getUserSessions_def demo_findByRef Let_def demo_user_def demo_session_def)
  show ?thesis using h listed_sessions_hide_refresh_token[OF h] by simp
qed

text \<open>
  Claim C10. When no session of the user has the given id, \<open>terminateSession\<close> fails with
  the \<open>NotFoundException\<close> for a session and leaves the collection, and so the session list,
  as it was; \<open>logout\<close> with the same id returns without an error.
\<close>

theorem terminateSession_unknown_id:
  assumes "findByRef st user = Some userDoc"
    and "\<forall>s \<in> set (sessions userDoc). s_id s \<noteq> sid"
  shows "terminateSession user sid st = (Inl (NotFoundException ''Session not found''), st) \<and>
         fst (logout (u_id userDoc) (Some sid) st) = Inr ()"
proof -
  from assms(2) have "filter (\<lambda>s. s_id s \<noteq> sid) (sessions userDoc) = sessions userDoc"
    by (simp add: filter_id_conv)
  with assms(1) show ?thesis
    by (simp add: terminateSession_def Let_def logout_succeeds)
qed

theorem terminateSession_unknown_id_witness:
  "findByRef (demo_store [demo_session ''s1'' 1000000])
      \<lparr>ref__id = Some ''u1'', ref_id = Some ''u1'', ref_sub = Some ''u1''\<rparr>
     = Some (demo_user [demo_session ''s1'' 1000000]) \<and>
   terminateSession \<lparr>ref__id = Some ''u1'', ref_id = Some ''u1'', ref_sub = Some ''u1''\<rparr> ''s7''
      (demo_store [demo_session ''s1'' 1000000])
     = (Inl (NotFoundException ''Session not found''), demo_store [demo_session ''s1'' 1000000]) \<and>
   fst (logout ''u1'' (Some ''s7'') (demo_store [demo_session ''s1'' 1000000])) = Inr ()"
proof -
  have h1: "findByRef (demo_store [demo_session ''s1'' 1000000])
      \<lparr>ref__id = Some ''u1'', ref_id = Some ''u1'', ref_sub = Some ''u1''\<rparr>
     = Some (demo_user [demo_session ''s1'' 1000000])"
    by (rule demo_findByRef)
  have h2: "\<forall>s \<in> set (sessions (demo_user [demo_session ''s1'' 1000000])). s_id s \<noteq> ''s7''"
    by (simp add: demo_user_def demo_session_def)
  show ?thesis
    using h1 terminateSession_unknown_id[OF h1 h2] by (simp add: demo_user_def)
qed

lemma handleRequest_failure:
  assumes "err \<noteq> None \<or> user = None"
  shows "handleRequest True err user = Inr None"
    and "handleRequest False err user =
           Inl (case err of Some e \<Rightarrow> e | None \<Rightarrow> UnauthorizedException ''Access token required'')"
  using assms by (auto simp: handleRequest_def)

text \<open>
  Claim C8. When authentication fails (no token, a token that does not verify, or a
  verified token whose user or session \<open>validateUser\<close> rejects), the guard of a public route
  attaches \<open>null\<close> as the user and lets the request proceed, and the guard of a protected
  route throws an \<open>UnauthorizedException\<close>. In \<open>handleRequest\<close> itself, an error or a
  missing user gives \<open>null\<close> on a public route, and on a protected route the error, or
  the \<open>UnauthorizedException\<close> for a missing token when there is none.
\<close>

theorem guard_on_authentication_failure:
  assumes "bearer = None \<or>
           (\<exists>tok. bearer = Some tok \<and> jwt_verify (JWT_SECRET cfg) tv tok = None) \<or>
           (\<exists>tok p. bearer = Some tok \<and> jwt_verify (JWT_SECRET cfg) tv tok = Some p \<and>
                     isl (validateUser p tn st))"
  shows "canActivate cfg True tv tn bearer st = Inr None \<and>
         is_unauthorized (canActivate cfg False tv tn bearer st) \<and>
         (\<forall>err user. err \<noteq> None \<or> user = None \<longrightarrow>
            handleRequest True err user = Inr None \<and>
            handleRequest False err user =
              Inl (case err of Some e \<Rightarrow> e
                   | None \<Rightarrow> UnauthorizedException ''Access token required''))"
proof -
  obtain err user where au: "passport_authenticate cfg tv tn bearer st = (err, user)"
    by (cases "passport_authenticate cfg tv tn bearer st")
  from assms au have fail: "user = None"
    and err: "err = None \<or> err = Some (UnauthorizedException ''Invalid token'')"
    by (auto simp: passport_authenticate_def strategy_validate_def isl_def
        split: option.splits sum.splits)
  from fail have "err \<noteq> None \<or> user = None" by simp
  note hr = handleRequest_failure[OF this]
  from err have "canActivate cfg True tv tn bearer st = Inr None \<and>
         is_unauthorized (canActivate cfg False tv tn bearer st)"
    by (auto simp: canActivate_def au hr is_unauthorized_def)
  with handleRequest_failure show ?thesis by blast
qed

theorem guard_on_authentication_failure_witness:
  "isl (validateUser (demo_payload ''u1'' ''s1'') 2000000 (demo_store [])) \<and>
   jwt_verify (JWT_SECRET demo_config) 1000500 (demo_access_token ''u1'')
     = Some (demo_payload ''u1'' ''s1'') \<and>
   canActivate demo_config True 1000500 2000000 (Some (demo_access_token ''u1'')) (demo_store [])
     = Inr None \<and>
   canActivate demo_config False 1000500 2000000 (Some (demo_access_token ''u1'')) (demo_store [])
     = Inl (UnauthorizedException ''Invalid token'')"
proof -
  have h1: "isl (validateUser (demo_payload ''u1'' ''s1'') 2000000 (demo_store []))"
    by (simp add: validateUser_def demo_payload_def demo_store_def demo_user_def findById_def)
  have h2: "jwt_verify (JWT_SECRET demo_config) 1000500 (demo_access_token ''u1'')
     = Some (demo_payload ''u1'' ''s1'')"
    by (simp add: jwt_verify_def demo_access_token_def jwt_sign_def demo_config_def)
  have h: "Some (demo_access_token ''u1'') = None \<or>
           (\<exists>tok. Some (demo_access_token ''u1'') = Some tok \<and>
              jwt_verify (JWT_SECRET demo_config) 1000500 tok = None) \<or>
           (\<exists>tok p. Some (demo_access_token ''u1'') = Some tok \<and>
              jwt_verify (JWT_SECRET demo_config) 1000500 tok = Some p \<and>
              isl (validateUser p 2000000 (demo_store [])))"
    using h1 h2 by simp
  have "canActivate demo_config False 1000500 2000000 (Some (demo_access_token ''u1'')) (demo_store [])
     = Inl (UnauthorizedException ''Invalid token'')"
    using h1 h2
    by (auto simp: canActivate_def passport_authenticate_def strategy_validate_def
        handleRequest_def isl_def)
  then show ?thesis
    using h1 h2 guard_on_authentication_failure[OF h] by simp
qed

section \<open>Refreshing an expired session\<close>

lemma findIndex_Some:
  "findIndex P xs = Some i \<Longrightarrow> i < length xs \<and> P (xs ! i) \<and> (\<forall>j < i. \<not> P (xs ! j))"
proof (induction xs arbitrary: i)
  case Nil
  then show ?case by simp
next
  case (Cons x xs)
  show ?case
  proof (cases "P x")
    case True
    with Cons.prems show ?thesis by simp
  next
    case False
    with Cons.prems obtain i' where i': "findIndex P xs = Some i'" "i = Suc i'" by auto
    from Cons.IH[OF i'(1)] False i'(2) show ?thesis by (auto simp: less_Suc_eq_0_disj)
  qed
qed

text \<open>
  Claim C7. When \<open>refreshToken\<close> locates a session whose \<open>expiresAt\<close> lies before the
  instant of the check, the call fails with an \<open>UnauthorizedException\<close>, and in the
  collection it leaves the user's list is the old one without the sessions that have the
  expired session's id: the expired session is gone although the call failed.
\<close>

theorem refresh_expired_session_purged:
  assumes verify: "jwt_verify (JWT_REFRESH_SECRET cfg) (at_verify clk) tok = Some payload"
    and user: "findById st (sub payload) = Some user"
    and active: "u_isActive user"
    and located: "locate_session payload tok user = Some i"
    and expired: "s_expiresAt (sessions user ! i) < at_expiry_check clk"
  shows "fst (refreshToken cfg uuid clk tok req st)
           = Inl (UnauthorizedException ''Invalid refresh token'') \<and>
         (\<exists>user'. findById (snd (refreshToken cfg uuid clk tok req st)) (sub payload) = Some user' \<and>
            sessions user' =
              filter (\<lambda>s. s_id s \<noteq> s_id (sessions user ! i)) (sessions user) \<and>
            sessions user ! i \<notin> set (sessions user'))"
proof -
  let ?user' = "user\<lparr>sessions := filter (\<lambda>s. s_id s \<noteq> s_id (sessions user ! i)) (sessions user)\<rparr>"
  have res: "refreshToken cfg uuid clk tok req st =
               (Inl (UnauthorizedException ''Invalid refresh token''), save ?user' st)"
    using assms by (simp add: refreshToken_def refreshToken_try_def Let_def)
  have "u_id ?user' = sub payload" using findById_Some[OF user] by simp
  with findById_save[of ?user' st]
  have "findById (save ?user' st) (sub payload) = Some ?user'" by simp
  with res show ?thesis by simp
qed

theorem refresh_expired_session_purged_witness:
  "jwt_verify (JWT_REFRESH_SECRET demo_config) 605799999 (demo_refresh_token ''u1'' ''s1'')
     = Some (demo_payload ''u1'' ''s1'') \<and>
   findById (demo_store [demo_session ''s0'' 1000000, demo_session ''s1'' 1000000]) ''u1''
     = Some (demo_user [demo_session ''s0'' 1000000, demo_session ''s1'' 1000000]) \<and>
   locate_session (demo_payload ''u1'' ''s1'') (demo_refresh_token ''u1'' ''s1'')
     (demo_user [demo_session ''s0'' 1000000, demo_session ''s1'' 1000000]) = Some 1 \<and>
   fst (refreshToken demo_config ''fresh''
          ((demo_refresh_clock 605800001)\<lparr>at_verify := 605799999\<rparr>)
          (demo_refresh_token ''u1'' ''s1'') None
          (demo_store [demo_session ''s0'' 1000000, demo_session ''s1'' 1000000]))
     = Inl (UnauthorizedException ''Invalid refresh token'') \<and>
   map_option sessions (findById (snd (refreshToken demo_config ''fresh''
          ((demo_refresh_clock 605800001)\<lparr>at_verify := 605799999\<rparr>)
          (demo_refresh_token ''u1'' ''s1'') None
          (demo_store [demo_session ''s0'' 1000000, demo_session ''s1'' 1000000]))) ''u1'')
     = Some [demo_session ''s0'' 1000000]"
proof -
  let ?clk = "(demo_refresh_clock 605800001)\<lparr>at_verify := 605799999\<rparr>"
  let ?st = "demo_store [demo_session ''s0'' 1000000, demo_session ''s1'' 1000000]"
  let ?user = "demo_user [demo_session ''s0'' 1000000, demo_session ''s1'' 1000000]"
  have h1: "jwt_verify (JWT_REFRESH_SECRET demo_config) (at_verify ?clk) (demo_refresh_token ''u1'' ''s1'')
     = Some (demo_payload ''u1'' ''s1'')"
    by (simp add: jwt_verify_def demo_refresh_token_def jwt_sign_def demo_config_def
        demo_refresh_clock_def)
  have h2: "findById ?st (sub (demo_payload ''u1'' ''s1'')) = Some ?user"
    by (simp add: findById_def demo_store_def demo_user_def demo_payload_def)
  have h3: "u_isActive ?user" by (simp add: demo_user_def)
  have h4: "locate_session (demo_payload ''u1'' ''s1'') (demo_refresh_token ''u1'' ''s1'') ?user = Some 1"
    by (simp add: locate_session_def demo_payload_def truthy_def demo_user_def demo_session_def)
  have h5: "s_expiresAt (sessions ?user ! 1) < at_expiry_check ?clk"
    by (simp add: demo_user_def demo_session_def demo_refresh_clock_def)
  have p: "sub (demo_payload ''u1'' ''s1'') = ''u1''" by (simp add: demo_payload_def)
  have f: "filter (\<lambda>s. s_id s \<noteq> s_id (sessions ?user ! 1)) (sessions ?user) = [demo_session ''s0'' 1000000]"
    by (simp add: demo_user_def demo_session_def)
  from refresh_expired_session_purged[OF h1 h2 h3 h4 h5, of "''fresh''" None] h1 h2 h4
  show ?thesis
    unfolding p f by (auto simp: demo_refresh_clock_def)
qed

section \<open>Login: the new session and the ceiling of ten\<close>

lemma length_filter_sort_key:
  "length (filter P (sort_key f xs)) = length (filter P xs)"
proof -
  have "mset (filter P (sort_key f xs)) = mset (filter P xs)" by simp
  then show ?thesis by (metis size_mset)
qed

lemma mem_take_sort_key:
  fixes f :: "'a \<Rightarrow> int"
  assumes mem: "x \<in> set xs" and few: "length (filter (\<lambda>y. f y \<le> f x) xs) \<le> k"
  shows "x \<in> set (take k (sort_key f xs))"
proof -
  let ?ys = "sort_key f xs"
  let ?P = "\<lambda>y. f y \<le> f x"
  from mem have "x \<in> set ?ys" by simp
  then obtain i where i: "i < length ?ys" "?ys ! i = x" by (metis in_set_conv_nth)
  have srt: "sorted (map f ?ys)" by simp
  have "i < k"
  proof (rule ccontr)
    assume "\<not> i < k"
    have all: "\<forall>y \<in> set (take (Suc i) ?ys). ?P y"
    proof
      fix y assume "y \<in> set (take (Suc i) ?ys)"
      then obtain j where j: "j < Suc i" "j < length ?ys" "?ys ! j = y"
        by (auto simp: in_set_conv_nth)
      then have "j \<le> i" by simp
      with srt i(1) have "map f ?ys ! j \<le> map f ?ys ! i"
        by (intro sorted_nth_mono) simp_all
      with j i show "f y \<le> f x" by simp
    qed
    have "filter ?P ?ys = filter ?P (take (Suc i) ?ys) @ filter ?P (drop (Suc i) ?ys)"
      by (metis append_take_drop_id filter_append)
    then have "length (filter ?P ?ys) \<ge> length (filter ?P (take (Suc i) ?ys))" by simp
    moreover from all have "filter ?P (take (Suc i) ?ys) = take (Suc i) ?ys"
      by (simp add: filter_id_conv)
    moreover have "length (take (Suc i) ?ys) = Suc i" using i(1) by simp
    ultimately have "Suc i \<le> length (filter ?P ?ys)" by simp
    also have "\<dots> = length (filter ?P xs)" by (rule length_filter_sort_key)
    finally show False using few \<open>\<not> i < k\<close> by simp
  qed
  with i show ?thesis by (auto simp: in_set_conv_nth)
qed

text \<open>The branch of \<open>generateTokens\<close> that a login takes.\<close>

lemma generateTokens_new:
  "generateTokens cfg uuid clk user req None st =
     (let payload = token_payload user uuid;
          accessTok = jwt_sign (JWT_SECRET cfg) (access_ttl cfg) (at_sign_access clk) payload;
          refreshTok = jwt_sign (JWT_REFRESH_SECRET cfg) (refresh_ttl cfg) (at_sign_refresh clk) payload;
          live = filter (\<lambda>s. at_cleanup clk < s_expiresAt s)
                   (push_new_session cfg clk req uuid refreshTok (sessions user));
          kept = (if 10 < length live then take 10 (sort_by_lastActive_desc live) else live)
      in ((accessTok, refreshTok), user\<lparr>sessions := kept\<rparr>, save (user\<lparr>sessions := kept\<rparr>) st))"
  by (simp add: generateTokens_def Let_def truthy_def)

lemma new_session_fields:
  "s_id (new_session clk req sid tok e) = sid"
  "s_lastActive (new_session clk req sid tok e) = at_lastActive clk"
  "s_expiresAt (new_session clk req sid tok e) = e"
  "s_refreshToken (new_session clk req sid tok e) = tok"
  "s_isActive (new_session clk req sid tok e) = True"
  by (simp_all add: new_session_def)

lemma push_new_session_valid:
  "new_Date_after (at_expiry clk) (refreshExpirationMs cfg) = Some e \<Longrightarrow>
   push_new_session cfg clk req sid tok ss = ss @ [new_session clk req sid tok e]"
  by (simp add: push_new_session_def)

lemma new_session_kept:
  fixes n :: UserSession
  assumes lifetime: "at_cleanup clk < s_expiresAt n"
    and recent: "length (filter (\<lambda>s. at_cleanup clk < s_expiresAt s \<and>
                                     s_lastActive n \<le> s_lastActive s) old) < 10"
    and live: "live = filter (\<lambda>s. at_cleanup clk < s_expiresAt s) (old @ [n])"
  shows "n \<in> set (if 10 < length live then take 10 (sort_by_lastActive_desc live) else live)"
proof -
  have live': "live = filter (\<lambda>s. at_cleanup clk < s_expiresAt s) old @ [n]"
    using lifetime by (simp add: live)
  then have mem: "n \<in> set live" by simp
  have "filter (\<lambda>y. - s_lastActive y \<le> - s_lastActive n) live =
          filter (\<lambda>s. at_cleanup clk < s_expiresAt s \<and> s_lastActive n \<le> s_lastActive s) old @ [n]"
    unfolding live' by (simp add: conj_commute)
  with recent have "length (filter (\<lambda>y. - s_lastActive y \<le> - s_lastActive n) live) \<le> 10"
    by simp
  from mem_take_sort_key[OF mem this] mem show ?thesis
    by (simp add: sort_by_lastActive_desc_def)
qed

text \<open>
  Where the login does register its session: the tokens of a login carry the generated
  \<open>sessionId\<close> and the document is persisted; a session with that id is in the persisted
  list when its \<open>expiresAt\<close> is an instant after the clean-up and fewer than ten unexpired
  earlier sessions were last active at or after the new session's \<open>lastActive\<close>.
\<close>

lemma login_session_present:
  assumes result: "generateTokens cfg uuid clk user req None st = ((access, refresh), user', st')"
  shows "sessionId (jwt_payload access) = Some uuid \<and>
         sessionId (jwt_payload refresh) = Some uuid \<and>
         findById st' (u_id user) = Some user' \<and>
         (\<forall>e. new_Date_after (at_expiry clk) (refreshExpirationMs cfg) = Some e \<longrightarrow>
              at_cleanup clk < e \<longrightarrow>
              length (filter (\<lambda>s. at_cleanup clk < s_expiresAt s \<and>
                                  at_lastActive clk \<le> s_lastActive s) (sessions user)) < 10 \<longrightarrow>
              (\<exists>s \<in> set (sessions user'). s_id s = uuid))"
proof -
  let ?R = "jwt_sign (JWT_REFRESH_SECRET cfg) (refresh_ttl cfg) (at_sign_refresh clk)
              (token_payload user uuid)"
  let ?A = "jwt_sign (JWT_SECRET cfg) (access_ttl cfg) (at_sign_access clk)
              (token_payload user uuid)"
  let ?live = "filter (\<lambda>s. at_cleanup clk < s_expiresAt s)
                 (push_new_session cfg clk req uuid ?R (sessions user))"
  let ?kept = "if 10 < length ?live then take 10 (sort_by_lastActive_desc ?live) else ?live"
  have eq: "generateTokens cfg uuid clk user req None st =
              ((?A, ?R), user\<lparr>sessions := ?kept\<rparr>, save (user\<lparr>sessions := ?kept\<rparr>) st)"
    by (simp only: generateTokens_new Let_def)
  from result[unfolded eq] have acc: "access = ?A" and ref: "refresh = ?R"
    and user': "user' = user\<lparr>sessions := ?kept\<rparr>"
    and s0: "st' = save (user\<lparr>sessions := ?kept\<rparr>) st"
    by blast+
  have st': "st' = save user' st" using s0 user' by simp
  have "u_id user' = u_id user" by (simp add: user')
  with findById_save[of user' st] have found: "findById st' (u_id user) = Some user'"
    by (simp add: st')
  have present: "\<exists>s \<in> set (sessions user'). s_id s = uuid"
    if valid: "new_Date_after (at_expiry clk) (refreshExpirationMs cfg) = Some e"
      and lifetime: "at_cleanup clk < e"
      and recent: "length (filter (\<lambda>s. at_cleanup clk < s_expiresAt s \<and>
                              at_lastActive clk \<le> s_lastActive s) (sessions user)) < 10"
    for e
  proof -
    let ?n = "new_session clk req uuid ?R e"
    have l1: "at_cleanup clk < s_expiresAt ?n"
      by (simp add: new_session_fields lifetime)
    have l2: "length (filter (\<lambda>s. at_cleanup clk < s_expiresAt s \<and>
                                     s_lastActive ?n \<le> s_lastActive s) (sessions user)) < 10"
      using recent by (simp add: new_session_fields)
    have l3: "?live = filter (\<lambda>s. at_cleanup clk < s_expiresAt s) (sessions user @ [?n])"
      by (simp only: push_new_session_valid[OF valid])
    have "?n \<in> set ?kept" by (rule new_session_kept[OF l1 l2 l3])
    then have "?n \<in> set (sessions user')" by (simp add: user')
    then show ?thesis using new_session_fields(1) by blast
  qed
  have "sessionId (jwt_payload access) = Some uuid" "sessionId (jwt_payload refresh) = Some uuid"
    by (simp_all add: acc ref jwt_sign_def token_payload_def)
  with found present show ?thesis by blast
qed

lemma sorted_last_max:
  fixes f :: "'a \<Rightarrow> int"
  assumes "sorted (map f ys)" and "ys \<noteq> []" and "y \<in> set ys"
  shows "f y \<le> f (last ys)"
proof -
  from assms(2) have ys: "ys = butlast ys @ [last ys]" by simp
  show ?thesis
  proof (cases "y = last ys")
    case True
    then show ?thesis by simp
  next
    case False
    with assms(3) ys have "y \<in> set (butlast ys)"
      by (metis Un_iff empty_iff empty_set set_ConsD set_append)
    moreover from assms(1) ys have "sorted (map f (butlast ys) @ [f (last ys)])"
      by (metis list.simps(8) list.simps(9) map_append)
    ultimately show ?thesis by (auto simp: sorted_append)
  qed
qed

lemma evict_one_of_eleven:
  fixes n :: UserSession
  assumes len: "length old = 10"
    and older: "\<exists>s \<in> set old. s_lastActive s < s_lastActive n"
  shows "\<exists>e \<in> set old. (\<forall>s \<in> set old. s_lastActive e \<le> s_lastActive s) \<and>
           mset (take 10 (sort_by_lastActive_desc (old @ [n]))) = mset old - {#e#} + {#n#}"
proof -
  let ?f = "\<lambda>s. - s_lastActive s"
  let ?ys = "sort_by_lastActive_desc (old @ [n])"
  have len_ys: "length ?ys = 11" using len by (simp add: sort_by_lastActive_desc_def)
  then have ne: "?ys \<noteq> []" by auto
  have set_ys: "set ?ys = set old \<union> {n}" by (simp add: sort_by_lastActive_desc_def)
  have srt: "sorted (map ?f ?ys)" by (simp add: sort_by_lastActive_desc_def)
  let ?e = "last ?ys"
  have max: "s_lastActive ?e \<le> s_lastActive y" if "y \<in> set ?ys" for y
    using sorted_last_max[OF srt ne that] by simp
  from older obtain s where s: "s \<in> set old" "s_lastActive s < s_lastActive n" by blast
  then have "s_lastActive ?e < s_lastActive n" using max[of s] set_ys by auto
  then have "?e \<noteq> n" by auto
  moreover have "?e \<in> set ?ys" using ne by simp
  ultimately have e_old: "?e \<in> set old" using set_ys by auto
  have "take 10 ?ys = butlast ?ys" using len_ys by (simp add: butlast_conv_take)
  moreover have "mset ?ys = mset (butlast ?ys) + {#?e#}"
    using ne by (metis append_butlast_last_id mset.simps(1) mset.simps(2) mset_append)
  moreover have "mset ?ys = mset old + {#n#}" by (simp add: sort_by_lastActive_desc_def)
  ultimately have "mset (take 10 ?ys) = mset old + {#n#} - {#?e#}"
    by (metis add_diff_cancel_right')
  also have "\<dots> = mset old - {#?e#} + {#n#}" using e_old by simp
  finally have "mset (take 10 ?ys) = mset old - {#?e#} + {#n#}" .
  moreover have "\<forall>s \<in> set old. s_lastActive ?e \<le> s_lastActive s" using max set_ys by auto
  ultimately show ?thesis using e_old by blast
qed

text \<open>
  Where the ceiling does evict the least recently active session: ten unexpired sessions,
  at least one of them last active before the new session's \<open>lastActive\<close>, and a new session
  whose \<open>expiresAt\<close> is an instant after the clean-up. The login then leaves exactly ten
  sessions, the new one among them, and exactly one earlier session is gone, one whose
  \<open>lastActive\<close> is least among the ten.
\<close>

lemma eleventh_session_evicts_least_recent:
  assumes ten: "length (sessions user) = 10"
    and unexpired: "\<forall>s \<in> set (sessions user). at_cleanup clk < s_expiresAt s"
    and valid: "new_Date_after (at_expiry clk) (refreshExpirationMs cfg) = Some e"
    and lifetime: "at_cleanup clk < e"
    and older: "\<exists>s \<in> set (sessions user). s_lastActive s < at_lastActive clk"
    and result: "generateTokens cfg uuid clk user req None st = ((access, refresh), user', st')"
  shows "length (sessions user') = 10 \<and>
         findById st' (u_id user) = Some user' \<and>
         new_session clk req uuid refresh e \<in> set (sessions user') \<and>
         (\<exists>x \<in> set (sessions user).
            (\<forall>s \<in> set (sessions user). s_lastActive x \<le> s_lastActive s) \<and>
            mset (sessions user') =
              mset (sessions user) - {#x#} + {#new_session clk req uuid refresh e#})"
proof -
  let ?R = "jwt_sign (JWT_REFRESH_SECRET cfg) (refresh_ttl cfg) (at_sign_refresh clk)
              (token_payload user uuid)"
  let ?n = "new_session clk req uuid ?R e"
  let ?live = "filter (\<lambda>s. at_cleanup clk < s_expiresAt s)
                 (push_new_session cfg clk req uuid ?R (sessions user))"
  let ?kept = "if 10 < length ?live then take 10 (sort_by_lastActive_desc ?live) else ?live"
  have eq: "generateTokens cfg uuid clk user req None st =
              ((jwt_sign (JWT_SECRET cfg) (access_ttl cfg) (at_sign_access clk)
                  (token_payload user uuid), ?R),
               user\<lparr>sessions := ?kept\<rparr>, save (user\<lparr>sessions := ?kept\<rparr>) st)"
    by (simp only: generateTokens_new Let_def)
  from result[unfolded eq] have ref: "refresh = ?R"
    and u0: "user' = user\<lparr>sessions := ?kept\<rparr>" and s0: "st' = save (user\<lparr>sessions := ?kept\<rparr>) st"
    by blast+
  have live: "?live = sessions user @ [?n]"
    using unexpired lifetime
    by (simp add: push_new_session_valid[OF valid] new_session_fields filter_id_conv)
  have kept: "?kept = take 10 (sort_by_lastActive_desc (sessions user @ [?n]))"
    unfolding live using ten by simp
  have sess: "sessions user' = take 10 (sort_by_lastActive_desc (sessions user @ [?n]))"
    using u0 kept by simp
  have older': "\<exists>s \<in> set (sessions user). s_lastActive s < s_lastActive ?n"
    using older by (simp add: new_session_fields)
  from evict_one_of_eleven[OF ten older']
  obtain x where x: "x \<in> set (sessions user)"
      "\<forall>s \<in> set (sessions user). s_lastActive x \<le> s_lastActive s"
      "mset (sessions user') = mset (sessions user) - {#x#} + {#?n#}"
    unfolding sess by blast
  have "size (mset (sessions user')) = 10"
    unfolding x(3) using x(1) ten by (simp add: size_Diff_singleton)
  then have len: "length (sessions user') = 10" by simp
  have "?n \<in># mset (sessions user')" unfolding x(3) by simp
  then have mem: "?n \<in> set (sessions user')" by simp
  have "u_id user' = u_id user" by (simp add: u0)
  with findById_save[of user' st] have found: "findById st' (u_id user) = Some user'"
    using s0 u0 by simp
  from len found mem x show ?thesis unfolding ref by blast
qed

lemma demo_session_fields:
  "s_id (demo_session sid t) = sid"
  "s_lastActive (demo_session sid t) = t"
  "s_expiresAt (demo_session sid t) = 605800000"
  "s_isActive (demo_session sid t) = True"
  "s_refreshToken (demo_session sid t) = demo_refresh_token ''u1'' sid"
  by (simp_all add: demo_session_def)

lemma demo_lifetime: "refreshExpirationMs demo_config = Num 604800000"
  by (simp add: refreshExpirationMs_def demo_config_def parseTokenExpiration_def is_digit_def
      parseInt10_def js_times_def js_exact_def max_exact_def Let_def)

lemma demo_token_clock_fields:
  "at_cleanup (demo_token_clock t) = t" "at_expiry (demo_token_clock t) = t"
  "at_lastActive (demo_token_clock t) = t" "at_sign_refresh (demo_token_clock t) = t"
  "at_sign_access (demo_token_clock t) = t" "at_createdAt (demo_token_clock t) = t"
  by (simp_all add: demo_token_clock_def)

lemma demo_user_fields:
  "sessions (demo_user ss) = ss" "u_id (demo_user ss) = ''u1''" "u_isActive (demo_user ss)"
  by (simp_all add: demo_user_def)

lemma demo_push:
  "push_new_session demo_config (demo_token_clock 2999000) req sid tok ss =
     ss @ [new_session (demo_token_clock 2999000) req sid tok 607799000]"
  by (simp add: push_new_session_def new_Date_after_def demo_lifetime demo_token_clock_fields
      max_date_def)

lemma login_sessions:
  "sessions (fst (snd (generateTokens cfg uuid clk user req None st))) =
     (let live = filter (\<lambda>s. at_cleanup clk < s_expiresAt s)
                   (push_new_session cfg clk req uuid
                      (snd (fst (generateTokens cfg uuid clk user req None st))) (sessions user))
      in if 10 < length live then take 10 (sort_by_lastActive_desc live) else live)"
  by (simp add: generateTokens_new Let_def)

lemma login_store:
  "snd (snd (generateTokens cfg uuid clk user req None st)) =
     save (fst (snd (generateTokens cfg uuid clk user req None st))) st"
  by (simp add: generateTokens_new Let_def)

lemma login_user_id: "u_id (fst (snd (generateTokens cfg uuid clk user req None st))) = u_id user"
  by (simp add: generateTokens_new Let_def)

lemma login_token_ids:
  "sessionId (jwt_payload (fst (fst (generateTokens cfg uuid clk user req None st)))) = Some uuid"
  "sessionId (jwt_payload (snd (fst (generateTokens cfg uuid clk user req None st)))) = Some uuid"
  by (simp_all add: generateTokens_new Let_def jwt_sign_def token_payload_def)

lemma ten_sessions_from_unfold:
  "ten_sessions_from t =
     [demo_session ''s0'' t, demo_session ''s1'' (t + 1000), demo_session ''s2'' (t + 2000),
      demo_session ''s3'' (t + 3000), demo_session ''s4'' (t + 4000), demo_session ''s5'' (t + 5000),
      demo_session ''s6'' (t + 6000), demo_session ''s7'' (t + 7000), demo_session ''s8'' (t + 8000),
      demo_session ''s9'' (t + 9000)]"
  by (simp add: ten_sessions_from_def ten_ids_def)

text \<open>
  The login of user \<open>u1\<close> on which the two theorems below run: ten unexpired sessions last
  active between the instants 3000000 and 3009000, and a clock that reads 2999000.
\<close>

lemma stale_clock_login_sessions:
  "sessions (fst (snd (generateTokens demo_config ''fresh'' (demo_token_clock 2999000)
           (demo_user (ten_sessions_from 3000000)) None None
           (demo_store (ten_sessions_from 3000000))))) = rev (ten_sessions_from 3000000)"
  by (simp add: login_sessions Let_def demo_push demo_user_fields demo_session_fields
      demo_token_clock_fields new_session_fields ten_sessions_from_unfold
      sort_by_lastActive_desc_def)

lemma stale_clock_login_found:
  "findById (snd (snd (generateTokens demo_config ''fresh'' (demo_token_clock 2999000)
           (demo_user (ten_sessions_from 3000000)) None None
           (demo_store (ten_sessions_from 3000000))))) ''u1'' =
   Some (fst (snd (generateTokens demo_config ''fresh'' (demo_token_clock 2999000)
           (demo_user (ten_sessions_from 3000000)) None None
           (demo_store (ten_sessions_from 3000000)))))"
  using findById_save[of "fst (snd (generateTokens demo_config ''fresh'' (demo_token_clock 2999000)
           (demo_user (ten_sessions_from 3000000)) None None
           (demo_store (ten_sessions_from 3000000))))"]
  by (simp add: login_store login_user_id demo_user_fields)

text \<open>
  Claim C3, at the input where the code departs from it. Both tokens of the login carry
  the generated \<open>sessionId\<close>, as the claim says, and the document is persisted; but the
  new session sorts behind the ten earlier ones and the cut at ten drops it, so no
  persisted session has the id the tokens name.
\<close>

theorem login_tokens_name_no_session:
  "(case generateTokens demo_config ''fresh'' (demo_token_clock 2999000)
           (demo_user (ten_sessions_from 3000000)) None None
           (demo_store (ten_sessions_from 3000000)) of
      ((access, refresh), user', st') \<Rightarrow>
        sessionId (jwt_payload access) = Some ''fresh'' \<and>
        sessionId (jwt_payload refresh) = Some ''fresh'' \<and>
        findById st' ''u1'' = Some user' \<and>
        map s_id (sessions user') =
          [''s9'', ''s8'', ''s7'', ''s6'', ''s5'', ''s4'', ''s3'', ''s2'', ''s1'', ''s0''] \<and>
        ''fresh'' \<notin> set (map s_id (sessions user')))"
proof -
  let ?g = "generateTokens demo_config ''fresh'' (demo_token_clock 2999000)
           (demo_user (ten_sessions_from 3000000)) None None
           (demo_store (ten_sessions_from 3000000))"
  have ids: "map s_id (rev (ten_sessions_from 3000000)) =
          [''s9'', ''s8'', ''s7'', ''s6'', ''s5'', ''s4'', ''s3'', ''s2'', ''s1'', ''s0'']"
    by (simp add: ten_sessions_from_unfold demo_session_fields)
  obtain a r u s where g: "?g = ((a, r), u, s)" by (metis surj_pair)
  from stale_clock_login_sessions stale_clock_login_found login_token_ids[of demo_config "''fresh''"
      "demo_token_clock 2999000" "demo_user (ten_sessions_from 3000000)" None
      "demo_store (ten_sessions_from 3000000)"]
  have "sessions u = rev (ten_sessions_from 3000000)" "findById s ''u1'' = Some u"
    "sessionId (jwt_payload a) = Some ''fresh''" "sessionId (jwt_payload r) = Some ''fresh''"
    unfolding g by simp_all
  moreover from this(1) ids have m: "map s_id (sessions u) =
          [''s9'', ''s8'', ''s7'', ''s6'', ''s5'', ''s4'', ''s3'', ''s2'', ''s1'', ''s0'']"
    by metis
  moreover have "''fresh'' \<notin> set (map s_id (sessions u))" unfolding m by simp
  ultimately show ?thesis unfolding g by (simp only: prod.case simp_thms)
qed

text \<open>
  Claim C4, at the input where the code departs from it. The user holds ten unexpired
  sessions and an eleventh is created; ten sessions remain, but they are the ten earlier
  ones: none of them is evicted and the newly created session is not in the list.
\<close>

theorem eleventh_session_is_the_one_cut:
  "length (sessions (demo_user (ten_sessions_from 3000000))) = 10 \<and>
   list_all (\<lambda>s. at_cleanup (demo_token_clock 2999000) < s_expiresAt s)
     (sessions (demo_user (ten_sessions_from 3000000))) \<and>
   (case generateTokens demo_config ''fresh'' (demo_token_clock 2999000)
           (demo_user (ten_sessions_from 3000000)) None None
           (demo_store (ten_sessions_from 3000000)) of
      ((access, refresh), user', st') \<Rightarrow>
        findById st' ''u1'' = Some user' \<and>
        length (sessions user') = 10 \<and>
        mset (sessions user') = mset (ten_sessions_from 3000000))"
proof -
  let ?g = "generateTokens demo_config ''fresh'' (demo_token_clock 2999000)
           (demo_user (ten_sessions_from 3000000)) None None
           (demo_store (ten_sessions_from 3000000))"
  have h1: "length (sessions (demo_user (ten_sessions_from 3000000))) = 10"
    by (simp add: demo_user_fields ten_sessions_from_unfold)
  have h2: "list_all (\<lambda>s. at_cleanup (demo_token_clock 2999000) < s_expiresAt s)
     (sessions (demo_user (ten_sessions_from 3000000)))"
    by (simp add: demo_user_fields ten_sessions_from_unfold demo_session_fields
        demo_token_clock_fields)
  obtain a r u s where g: "?g = ((a, r), u, s)" by (metis surj_pair)
  from stale_clock_login_sessions stale_clock_login_found
  have ss: "sessions u = rev (ten_sessions_from 3000000)" and "findById s ''u1'' = Some u"
    unfolding g by simp_all
  moreover from ss have "mset (sessions u) = mset (ten_sessions_from 3000000)" by simp
  moreover from ss have "length (sessions u) = 10" by (simp add: ten_sessions_from_unfold)
  ultimately show ?thesis using h1 h2 unfolding g by (simp only: prod.case simp_thms)
qed

text \<open>
  The limits of dates and numbers: a lifetime of \<open>100000000d\<close> gives an Invalid Date and the
  login keeps no new session, and a number of seconds beyond \<open>2^53\<close> is not computed
  exactly.
\<close>

lemma far_expiry_is_invalid:
  "new_Date_after 2000000 (parseTokenExpiration ''100000000d'') = None"
  by (simp add: parseTokenExpiration_def is_digit_def parseInt10_def js_times_def js_exact_def
      max_exact_def new_Date_after_def max_date_def Let_def)

lemma far_expiry_session_purged:
  "sessions (fst (snd (generateTokens (demo_config\<lparr>JWT_REFRESH_EXPIRATION := Some ''100000000d''\<rparr>)
      ''fresh'' (demo_token_clock 2000000) (demo_user [demo_session ''s1'' 1000000]) None None
      (demo_store [demo_session ''s1'' 1000000])))) = [demo_session ''s1'' 1000000]"
  using far_expiry_is_invalid
  by (simp add: login_sessions Let_def push_new_session_def refreshExpirationMs_def
      demo_token_clock_fields demo_user_fields demo_session_fields)

lemma inexact_seconds: "parseTokenExpiration ''9007199254740993s'' = Huge"
  by (simp add: parseTokenExpiration_def is_digit_def parseInt10_def js_times_def js_exact_def
      max_exact_def Let_def)

section \<open>Refresh: rotation in place and the superseded token\<close>

lemma findIndex_first:
  "i < length xs \<Longrightarrow> P (xs ! i) \<Longrightarrow> \<exists>j \<le> i. findIndex P xs = Some j"
proof (induction xs arbitrary: i)
  case Nil
  then show ?case by simp
next
  case (Cons x xs)
  show ?case
  proof (cases "P x")
    case True
    then show ?thesis by simp
  next
    case False
    with Cons.prems obtain i' where i': "i = Suc i'" by (cases i) auto
    with Cons.prems have "i' < length xs" "P (xs ! i')" by simp_all
    from Cons.IH[OF this] obtain j where "j \<le> i'" "findIndex P xs = Some j" by blast
    with False i' show ?thesis by auto
  qed
qed

lemma findIndex_cong_map:
  "map P xs = map P ys \<Longrightarrow> findIndex P xs = findIndex P ys"
proof (induction xs arbitrary: ys)
  case Nil
  then show ?case by simp
next
  case (Cons x xs)
  then obtain y ys' where ys: "ys = y # ys'" by (cases ys) auto
  with Cons.prems have "P x = P y" "map P xs = map P ys'" by simp_all
  with Cons.IH[of ys'] ys show ?case by simp
qed

lemma locate_session_Some:
  assumes "locate_session payload tok user = Some i"
  shows "i < length (sessions user)" and "s_isActive (sessions user ! i)"
  using assms findIndex_Some
  by (fastforce simp: locate_session_def Let_def split: option.splits if_splits)+

lemma touch_session_fields:
  "s_id (touch_session clk req s) = s_id s"
  "s_isActive (touch_session clk req s) = s_isActive s"
  "s_expiresAt (touch_session clk req s) = s_expiresAt s"
  by (simp_all add: touch_session_def Let_def split: option.splits)

lemma token_payload_sessions [simp]:
  "token_payload (user\<lparr>sessions := ss\<rparr>) sid = token_payload user sid"
  by (simp add: token_payload_def)

text \<open>What a refresh does when the session it locates is live.\<close>

lemma refreshToken_live:
  assumes verify: "jwt_verify (JWT_REFRESH_SECRET cfg) (at_verify clk) tok = Some payload"
    and user: "findById st (sub payload) = Some user"
    and active: "u_isActive user"
    and located: "locate_session payload tok user = Some i"
    and live: "\<not> s_expiresAt (sessions user ! i) < at_expiry_check clk"
    and sid: "sid = s_id (sessions user ! i)" "sid \<noteq> []"
    and ss1: "ss1 = (sessions user)[i := touch_session clk req (sessions user ! i)]"
    and R: "R = jwt_sign (JWT_REFRESH_SECRET cfg) (refresh_ttl cfg)
                  (at_sign_refresh (at_tokens clk)) (token_payload user sid)"
    and A: "A = jwt_sign (JWT_SECRET cfg) (access_ttl cfg)
                  (at_sign_access (at_tokens clk)) (token_payload user sid)"
  shows "\<exists>j \<le> i. s_id (ss1 ! j) = sid \<and>
           refreshToken cfg uuid clk tok req st =
             (Inr \<lparr>accessToken = A, refreshToken_of = R,
                   user_of = toJSON (user\<lparr>sessions := ss1
                     [j := (ss1 ! j)\<lparr>s_refreshToken := R,
                                      s_lastActive := at_lastActive (at_tokens clk)\<rparr>]\<rparr>)\<rparr>,
              save (user\<lparr>sessions := ss1
                     [j := (ss1 ! j)\<lparr>s_refreshToken := R,
                                      s_lastActive := at_lastActive (at_tokens clk)\<rparr>]\<rparr>)
                (save (user\<lparr>sessions := ss1\<rparr>) st))"
proof -
  from locate_session_Some[OF located] have i: "i < length (sessions user)" by simp
  then have "i < length ss1" "s_id (ss1 ! i) = sid"
    by (simp_all add: ss1 sid touch_session_fields)
  from findIndex_first[of i ss1 "\<lambda>s. s_id s = sid", OF this]
  obtain j where j: "j \<le> i" "findIndex (\<lambda>s. s_id s = sid) ss1 = Some j" by blast
  from findIndex_Some[OF j(2)] have idj: "s_id (ss1 ! j) = sid" by simp
  let ?user1 = "user\<lparr>sessions := ss1\<rparr>"
  let ?user2 = "?user1\<lparr>sessions := (sessions ?user1)
                  [j := (sessions ?user1 ! j)\<lparr>s_refreshToken := R,
                          s_lastActive := at_lastActive (at_tokens clk)\<rparr>]\<rparr>"
  have gen: "generateTokens cfg uuid (at_tokens clk) ?user1 req (Some sid) (save ?user1 st) =
               ((A, R), ?user2, save ?user2 (save ?user1 st))"
    using sid(2) j(2) by (simp add: generateTokens_def Let_def truthy_def R A)
  have "refreshToken cfg uuid clk tok req st =
          (Inr \<lparr>accessToken = A, refreshToken_of = R, user_of = toJSON ?user2\<rparr>,
           save ?user2 (save ?user1 st))"
    using verify user active located live gen
    by (simp add: refreshToken_def refreshToken_try_def Let_def sid(1)[symmetric] ss1[symmetric])
  with j(1) idj show ?thesis by auto
qed

lemma map_update_same:
  "f y = f (xs ! i) \<Longrightarrow> map f (xs[i := y]) = map f xs"
proof (induction xs arbitrary: i)
  case Nil
  then show ?case by simp
next
  case (Cons x xs)
  then show ?case by (cases i) simp_all
qed

lemma locate_by_id:
  assumes located: "locate_session payload tok user = Some i"
    and names: "sessionId payload = Some (s_id (sessions user ! i))"
    and ne: "s_id (sessions user ! i) \<noteq> []"
  shows "findIndex (\<lambda>s. Some (s_id s) = sessionId payload \<and> s_isActive s) (sessions user) = Some i"
proof -
  let ?P = "\<lambda>s. Some (s_id s) = sessionId payload \<and> s_isActive s"
  from locate_session_Some[OF located] names
  have "i < length (sessions user)" "?P (sessions user ! i)" by simp_all
  from findIndex_first[of i "sessions user" ?P, OF this]
  obtain j where j: "findIndex ?P (sessions user) = Some j" by blast
  moreover have "truthy (sessionId payload)" using names ne by (simp add: truthy_def)
  ultimately have "locate_session payload tok user = Some j"
    by (simp add: locate_session_def Let_def)
  with located j show ?thesis by simp
qed

text \<open>The state a successful refresh leaves behind.\<close>

lemma refreshToken_ok_state:
  assumes ok: "refreshToken cfg uuid clk tok req st = (Inr res, st')"
    and verify: "jwt_verify (JWT_REFRESH_SECRET cfg) (at_verify clk) tok = Some payload"
    and user: "findById st (sub payload) = Some user"
    and located: "locate_session payload tok user = Some i"
    and ne: "s_id (sessions user ! i) \<noteq> []"
  shows "sessionId (jwt_payload (accessToken res)) = Some (s_id (sessions user ! i))"
    and "sessionId (jwt_payload (refreshToken_of res)) = Some (s_id (sessions user ! i))"
    and "\<exists>user'. findById st' (sub payload) = Some user' \<and> u_isActive user' \<and>
           map s_id (sessions user') = map s_id (sessions user) \<and>
           map s_isActive (sessions user') = map s_isActive (sessions user) \<and>
           map s_expiresAt (sessions user') = map s_expiresAt (sessions user) \<and>
           (\<exists>j < length (sessions user').
              s_id (sessions user' ! j) = s_id (sessions user ! i) \<and>
              s_refreshToken (sessions user' ! j) = refreshToken_of res)"
proof -
  let ?sid = "s_id (sessions user ! i)"
  let ?ss1 = "(sessions user)[i := touch_session clk req (sessions user ! i)]"
  let ?R = "jwt_sign (JWT_REFRESH_SECRET cfg) (refresh_ttl cfg)
                  (at_sign_refresh (at_tokens clk)) (token_payload user ?sid)"
  let ?A = "jwt_sign (JWT_SECRET cfg) (access_ttl cfg)
                  (at_sign_access (at_tokens clk)) (token_payload user ?sid)"
  from ok verify user located have active: "u_isActive user"
    by (auto simp: refreshToken_def refreshToken_try_def split: if_splits)
  from ok verify user located active
  have live: "\<not> s_expiresAt (sessions user ! i) < at_expiry_check clk"
    by (auto simp: refreshToken_def refreshToken_try_def Let_def split: if_splits)
  from refreshToken_live[where uuid = uuid and req = req,
      OF verify user active located live refl ne refl refl refl]
  obtain j where j: "j \<le> i" "s_id (?ss1 ! j) = ?sid"
    and eq: "refreshToken cfg uuid clk tok req st =
      (Inr \<lparr>accessToken = ?A, refreshToken_of = ?R,
            user_of = toJSON (user\<lparr>sessions := ?ss1
              [j := (?ss1 ! j)\<lparr>s_refreshToken := ?R,
                               s_lastActive := at_lastActive (at_tokens clk)\<rparr>]\<rparr>)\<rparr>,
       save (user\<lparr>sessions := ?ss1
              [j := (?ss1 ! j)\<lparr>s_refreshToken := ?R,
                               s_lastActive := at_lastActive (at_tokens clk)\<rparr>]\<rparr>)
         (save (user\<lparr>sessions := ?ss1\<rparr>) st))"
    by blast
  let ?ss2 = "?ss1[j := (?ss1 ! j)\<lparr>s_refreshToken := ?R,
                               s_lastActive := at_lastActive (at_tokens clk)\<rparr>]"
  let ?user' = "user\<lparr>sessions := ?ss2\<rparr>"
  from ok[unfolded eq] have res: "res = \<lparr>accessToken = ?A, refreshToken_of = ?R,
            user_of = toJSON ?user'\<rparr>"
    and st': "st' = save ?user' (save (user\<lparr>sessions := ?ss1\<rparr>) st)"
    by simp_all
  show "sessionId (jwt_payload (accessToken res)) = Some ?sid"
    by (simp add: res jwt_sign_def token_payload_def)
  show "sessionId (jwt_payload (refreshToken_of res)) = Some ?sid"
    by (simp add: res jwt_sign_def token_payload_def)
  from locate_session_Some[OF located] have i: "i < length (sessions user)" by simp
  with j(1) have jlen: "j < length ?ss2" by simp
  have "u_id ?user' = sub payload" using findById_Some[OF user] by simp
  with findById_save[of ?user'] have found: "findById st' (sub payload) = Some ?user'"
    by (simp add: st')
  have m1: "map s_id ?ss2 = map s_id (sessions user)"
    by (simp add: map_update_same touch_session_fields)
  have m2: "map s_isActive ?ss2 = map s_isActive (sessions user)"
    by (simp add: map_update_same touch_session_fields)
  have m3: "map s_expiresAt ?ss2 = map s_expiresAt (sessions user)"
    by (simp add: map_update_same touch_session_fields)
  have "s_id (?ss2 ! j) = ?sid" "s_refreshToken (?ss2 ! j) = refreshToken_of res"
    using jlen j(2) by (simp_all add: res)
  with jlen found active m1 m2 m3
  show "\<exists>user'. findById st' (sub payload) = Some user' \<and> u_isActive user' \<and>
           map s_id (sessions user') = map s_id (sessions user) \<and>
           map s_isActive (sessions user') = map s_isActive (sessions user) \<and>
           map s_expiresAt (sessions user') = map s_expiresAt (sessions user) \<and>
           (\<exists>j < length (sessions user').
              s_id (sessions user' ! j) = s_id (sessions user ! i) \<and>
              s_refreshToken (sessions user' ! j) = refreshToken_of res)"
    by (intro exI[of _ ?user']) auto
qed

lemma map_eq_nth:
  "map f xs = map f ys \<Longrightarrow> i < length xs \<Longrightarrow> f (xs ! i) = f (ys ! i)"
  by (metis length_map nth_map)

lemma findIndex_same_keys:
  fixes xs ys :: "UserSession list"
  assumes "map s_id xs = map s_id ys" and "map s_isActive xs = map s_isActive ys"
  shows "findIndex (\<lambda>s. Some (s_id s) = q \<and> s_isActive s) xs =
         findIndex (\<lambda>s. Some (s_id s) = q \<and> s_isActive s) ys"
proof -
  let ?P = "\<lambda>s. Some (s_id s) = q \<and> s_isActive s"
  have len: "length xs = length ys" using assms(1) by (rule map_eq_imp_length_eq)
  have "map ?P xs = map ?P ys"
  proof (rule nth_equalityI)
    show "length (map ?P xs) = length (map ?P ys)" using len by simp
  next
    fix i assume "i < length (map ?P xs)"
    then have i: "i < length xs" by simp
    from map_eq_nth[OF assms(1) i] map_eq_nth[OF assms(2) i] i len
    show "map ?P xs ! i = map ?P ys ! i" by simp
  qed
  then show ?thesis by (rule findIndex_cong_map)
qed

text \<open>
  The extent of the replay: after any successful refresh, the token just used is accepted
  again whenever its \<open>sessionId\<close> names the located session, it still verifies and the
  session is not expired. The first three conjuncts are the rotation itself: both new
  tokens carry the located session's id, no session is added or removed, and the new
  refresh token is stored in the session of that id.
\<close>

lemma superseded_token_accepted_by_id:
  assumes ok: "refreshToken cfg uuid clk tok req st = (Inr res, st')"
    and verify: "jwt_verify (JWT_REFRESH_SECRET cfg) (at_verify clk) tok = Some payload"
    and user: "findById st (sub payload) = Some user"
    and located: "locate_session payload tok user = Some i"
    and ne: "s_id (sessions user ! i) \<noteq> []"
  shows "sessionId (jwt_payload (accessToken res)) = Some (s_id (sessions user ! i)) \<and>
         sessionId (jwt_payload (refreshToken_of res)) = Some (s_id (sessions user ! i)) \<and>
         (\<exists>user'. findById st' (sub payload) = Some user' \<and>
            map s_id (sessions user') = map s_id (sessions user) \<and>
            (\<exists>j < length (sessions user').
               s_id (sessions user' ! j) = s_id (sessions user ! i) \<and>
               s_refreshToken (sessions user' ! j) = refreshToken_of res)) \<and>
         (\<forall>uuid2 clk2 req2.
            sessionId payload = Some (s_id (sessions user ! i)) \<longrightarrow>
            jwt_verify (JWT_REFRESH_SECRET cfg) (at_verify clk2) tok = Some payload \<longrightarrow>
            \<not> s_expiresAt (sessions user ! i) < at_expiry_check clk2 \<longrightarrow>
            (\<exists>res2 st2. refreshToken cfg uuid2 clk2 tok req2 st' = (Inr res2, st2)))"
proof -
  note state = refreshToken_ok_state[OF ok verify user located ne]
  from state(3) obtain user' where u': "findById st' (sub payload) = Some user'"
    and act: "u_isActive user'"
    and m1: "map s_id (sessions user') = map s_id (sessions user)"
    and m2: "map s_isActive (sessions user') = map s_isActive (sessions user)"
    and m3: "map s_expiresAt (sessions user') = map s_expiresAt (sessions user)"
    and rot: "\<exists>j < length (sessions user').
               s_id (sessions user' ! j) = s_id (sessions user ! i) \<and>
               s_refreshToken (sessions user' ! j) = refreshToken_of res"
    by blast
  from locate_session_Some[OF located] have i: "i < length (sessions user)" by simp
  from m1 have len: "length (sessions user') = length (sessions user)"
    by (rule map_eq_imp_length_eq)
  have again: "\<exists>res2 st2. refreshToken cfg uuid2 clk2 tok req2 st' = (Inr res2, st2)"
    if names: "sessionId payload = Some (s_id (sessions user ! i))"
      and verify2: "jwt_verify (JWT_REFRESH_SECRET cfg) (at_verify clk2) tok = Some payload"
      and live2: "\<not> s_expiresAt (sessions user ! i) < at_expiry_check clk2"
    for uuid2 clk2 req2
  proof -
    have truthy: "truthy (sessionId payload)" using names ne by (simp add: truthy_def)
    have "findIndex (\<lambda>s. Some (s_id s) = sessionId payload \<and> s_isActive s) (sessions user')
            = Some i"
      using findIndex_same_keys[OF m1 m2] locate_by_id[OF located names ne] by simp
    with truthy have loc2: "locate_session payload tok user' = Some i"
      by (simp add: locate_session_def Let_def)
    have i': "i < length (sessions user')" using i len by simp
    have id2: "s_id (sessions user' ! i) = s_id (sessions user ! i)"
      using map_eq_nth[OF m1 i'] .
    have ex2: "s_expiresAt (sessions user' ! i) = s_expiresAt (sessions user ! i)"
      using map_eq_nth[OF m3 i'] .
    from live2 ex2 have live': "\<not> s_expiresAt (sessions user' ! i) < at_expiry_check clk2" by simp
    from ne id2 have ne': "s_id (sessions user' ! i) \<noteq> []" by simp
    from refreshToken_live[where uuid = uuid2 and req = req2,
        OF verify2 u' act loc2 live' refl ne' refl refl refl]
    show ?thesis by blast
  qed
  from state(1,2) u' m1 rot again show ?thesis by blast
qed

lemmas demo_defs =
  demo_config_def demo_payload_def demo_refresh_token_def demo_session_def demo_user_def
  demo_store_def demo_token_clock_def demo_refresh_clock_def legacy_refresh_token_def
  legacy_session_def

lemmas refresh_defs =
  refreshToken_def refreshToken_try_def locate_session_def touch_session_def generateTokens_def
  jwt_verify_def jwt_sign_def findById_def save_def truthy_def token_payload_def toJSON_def
  Let_def

text \<open>
  Claim C1, at the input where the code departs from it. User \<open>u1\<close> has one session \<open>s1\<close>.
  Its refresh token is used at instant 2000000, which stores a different token in the
  session; presented again at instant 3000000, the superseded token is accepted and the
  stored token rotated once more, where the claim has the call fail. The second conjunct
  is the sibling path: a token without \<open>sessionId\<close> is located by the stored token value,
  and after its first use the same token is rejected.
\<close>

theorem superseded_refresh_token_accepted:
  "(case refreshToken demo_config ''x'' (demo_refresh_clock 2000000)
           (demo_refresh_token ''u1'' ''s1'') None (demo_store [demo_session ''s1'' 1000000]) of
      (Inl e, st1) \<Rightarrow> False
    | (Inr res1, st1) \<Rightarrow>
        refreshToken_of res1 \<noteq> demo_refresh_token ''u1'' ''s1'' \<and>
        map_option (\<lambda>u. map s_refreshToken (sessions u)) (findById st1 ''u1'')
          = Some [refreshToken_of res1] \<and>
        (case refreshToken demo_config ''y'' (demo_refresh_clock 3000000)
                (demo_refresh_token ''u1'' ''s1'') None st1 of
           (Inl e, st2) \<Rightarrow> False
         | (Inr res2, st2) \<Rightarrow>
             sessionId (jwt_payload (refreshToken_of res2)) = Some ''s1'' \<and>
             map_option (\<lambda>u. map s_refreshToken (sessions u)) (findById st2 ''u1'')
               = Some [refreshToken_of res2])) \<and>
   (case refreshToken demo_config ''x'' (demo_refresh_clock 2000000)
           legacy_refresh_token None (demo_store [legacy_session]) of
      (Inl e, st1) \<Rightarrow> False
    | (Inr res1, st1) \<Rightarrow>
        refreshToken_of res1 \<noteq> legacy_refresh_token \<and>
        map_option (\<lambda>u. map s_refreshToken (sessions u)) (findById st1 ''u1'')
          = Some [refreshToken_of res1] \<and>
        fst (refreshToken demo_config ''y'' (demo_refresh_clock 3000000)
               legacy_refresh_token None st1)
          = Inl (UnauthorizedException ''Invalid refresh token''))"
  by (simp add: refresh_defs demo_defs)

end
